theory Spec2Isabelle
  imports Main "HOL-Library.Multiset" "HOL-Library.Char_ord" "HOL-Library.List_Lexorder"
begin

text \<open>
  A shallow embedding of the image server \<^verbatim>\<open>iamtakagi-lab/images\<close>: an Express
  application that lists the images of a storage directory page by page and, behind HTTP
  Basic authentication, uploads, fetches and deletes images.  The definitions follow the
  current revision of \<^verbatim>\<open>app.ts\<close> (the one with \<^verbatim>\<open>PUT /url2image\<close> and with the existence
  check in \<^verbatim>\<open>DELETE /delete\<close>); \<^verbatim>\<open>paginate\<close>, \<^verbatim>\<open>readSyncImageFiles\<close>, the \<^verbatim>\<open>filename\<close>
  callback, \<^verbatim>\<open>checkAuth\<close> and the listing handler are the same in the earlier revision.
  Names are those of the source, except where a name is taken in HOL: the fields \<^verbatim>\<open>size\<close>
  and \<^verbatim>\<open>next\<close> of a pagination are \<open>psize\<close> and \<open>nxt\<close>.
\<close>

section \<open>JavaScript values used by the server\<close>

text \<open>
  The page index of the server is a JavaScript number that is either an integer or
  \<^verbatim>\<open>NaN\<close> (the result of \<^verbatim>\<open>parseInt\<close> on a string without digits).  Integers are kept
  exact; the rounding JavaScript applies to integers beyond \<open>2^53\<close> is not part of the
  model.
\<close>

datatype jsnum = NaN | Num int

fun js_sub :: "jsnum \<Rightarrow> jsnum \<Rightarrow> jsnum" where
  "js_sub (Num a) (Num b) = Num (a - b)"
| "js_sub _ _ = NaN"

fun js_add :: "jsnum \<Rightarrow> jsnum \<Rightarrow> jsnum" where
  "js_add (Num a) (Num b) = Num (a + b)"
| "js_add _ _ = NaN"

fun js_mul :: "jsnum \<Rightarrow> jsnum \<Rightarrow> jsnum" where
  "js_mul (Num a) (Num b) = Num (a * b)"
| "js_mul _ _ = NaN"

text \<open>\<^verbatim>\<open>ToIntegerOrInfinity\<close> of ECMAScript: \<^verbatim>\<open>NaN\<close> becomes 0.\<close>

fun ToIntegerOrInfinity :: "jsnum \<Rightarrow> int" where
  "ToIntegerOrInfinity NaN = 0"
| "ToIntegerOrInfinity (Num n) = n"

text \<open>
  A relative index of \<^verbatim>\<open>Array.prototype.slice\<close>: a negative offset counts from the end
  of the array, and every offset is clamped to \<open>[0, len]\<close>.
\<close>

definition relative_index :: "int \<Rightarrow> int \<Rightarrow> int" where
  "relative_index len r = (if r < 0 then max (len + r) 0 else min r len)"

text \<open>\<^verbatim>\<open>array.slice(start, end)\<close>: the elements at positions \<open>k, ..., final - 1\<close>.\<close>

definition slice :: "'a list \<Rightarrow> jsnum \<Rightarrow> jsnum \<Rightarrow> 'a list" where
  "slice array start end =
     (let len = int (length array);
          k = relative_index len (ToIntegerOrInfinity start);
          final = relative_index len (ToIntegerOrInfinity end)
      in take (nat (final - k)) (drop (nat k) array))"

section \<open>Pagination\<close>

text \<open>
  \<^verbatim>\<open>function paginate(array: string[], size: number, index: number) {
    return array.slice((index - 1) * size, index * size);
  }\<close>
\<close>

definition PAGE_SIZE :: jsnum where
  "PAGE_SIZE = Num 20"

definition paginate :: "'a list \<Rightarrow> jsnum \<Rightarrow> jsnum \<Rightarrow> 'a list" where
  "paginate array sz index =
     slice array (js_mul (js_sub index (Num 1)) sz) (js_mul index sz)"

text \<open>
  The block every listing handler repeats after reading the files:
  \<^verbatim>\<open>const paginated = paginate(files, PAGE_SIZE, index);
  const prevPaginated = paginate(files, PAGE_SIZE, index - 1);
  const nextPaginated = paginate(files, PAGE_SIZE, index + 1);
  const pagination = { index, size: PAGE_SIZE,
    prev: prevPaginated.length != 0 ? index - 1 : null,
    next: nextPaginated.length != 0 ? index + 1 : null,
    files: paginated };\<close>
\<close>

record Pagination =
  index :: jsnum
  psize :: jsnum
  prev :: "jsnum option"
  nxt :: "jsnum option"
  files :: "string list"

record ImageProvider =
  all_files :: "string list"
  pagination :: Pagination

definition make_pagination :: "string list \<Rightarrow> jsnum \<Rightarrow> Pagination" where
  "make_pagination fs idx =
     (let paginated = paginate fs PAGE_SIZE idx;
          prevPaginated = paginate fs PAGE_SIZE (js_sub idx (Num 1));
          nextPaginated = paginate fs PAGE_SIZE (js_add idx (Num 1))
      in \<lparr> index = idx, psize = PAGE_SIZE,
           prev = (if length prevPaginated \<noteq> 0 then Some (js_sub idx (Num 1)) else None),
           nxt = (if length nextPaginated \<noteq> 0 then Some (js_add idx (Num 1)) else None),
           files = paginated \<rparr>)"

section \<open>Strings\<close>

text \<open>
  A string is a list of characters, each a code unit below 256; strings with higher code
  units are outside the model.  Case folding is that of the ASCII letters: a regular
  expression without the \<^verbatim>\<open>u\<close> flag never folds another character onto an ASCII letter.
  Strings are ordered bytewise (the orders of \<^verbatim>\<open>Char_ord\<close> and \<^verbatim>\<open>List_Lexorder\<close>), as
  \<^verbatim>\<open>strcmp\<close> orders them.
\<close>

definition to_lower :: "char \<Rightarrow> char" where
  "to_lower c =
     (case map_of (zip ''ABCDEFGHIJKLMNOPQRSTUVWXYZ'' ''abcdefghijklmnopqrstuvwxyz'') c of
        None \<Rightarrow> c
      | Some l \<Rightarrow> l)"

text \<open>\<^verbatim>\<open>s.split(sep)\<close> for a separator of one character; the result is never empty.\<close>

fun js_split :: "char \<Rightarrow> string \<Rightarrow> string list" where
  "js_split sep [] = [[]]"
| "js_split sep (c # cs) =
     (if c = sep then [] # js_split sep cs
      else (case js_split sep cs of [] \<Rightarrow> [[c]] | r # rs \<Rightarrow> (c # r) # rs))"

definition startsWith :: "string \<Rightarrow> string \<Rightarrow> bool" where
  "startsWith s p = (take (length p) s = p)"

text \<open>The suffix test behind a pattern \<^verbatim>\<open>/...$/i\<close> whose body is a literal in lower case.\<close>

definition ends_with_ci :: "string \<Rightarrow> string \<Rightarrow> bool" where
  "ends_with_ci s suf =
     (length suf \<le> length s \<and> map to_lower (drop (length s - length suf) s) = suf)"

text \<open>
  \<^verbatim>\<open>const ALLOWED_FORMATS_REGEX = /\.(gif|jpe?g|tiff?|png|webp|bmp|svg)$/i;\<close>
  The alternatives of the group, with the optional letters expanded.
\<close>

definition ALLOWED_FORMATS_ALTERNATIVES :: "string list" where
  "ALLOWED_FORMATS_ALTERNATIVES =
     [''gif'', ''jpg'', ''jpeg'', ''tif'', ''tiff'', ''png'', ''webp'', ''bmp'', ''svg'']"

definition ALLOWED_FORMATS_REGEX_test :: "string \<Rightarrow> bool" where
  "ALLOWED_FORMATS_REGEX_test name =
     list_ex (\<lambda>e. ends_with_ci name (CHR ''.'' # e)) ALLOWED_FORMATS_ALTERNATIVES"

text \<open>
  \<^verbatim>\<open>parseInt(string)\<close> without a radix: leading white space is skipped, a sign is read,
  a prefix \<^verbatim>\<open>0x\<close> selects radix 16, and the longest run of digits is the value; without a
  digit the result is \<^verbatim>\<open>NaN\<close>.  The white space of ECMAScript below code unit 256: tab,
  line feed, vertical tab, form feed, carriage return, space and the no-break space
  \<^verbatim>\<open>U+00A0\<close>.
\<close>

definition is_js_space :: "char \<Rightarrow> bool" where
  "is_js_space c = ((of_char c :: nat) \<in> {9, 10, 11, 12, 13, 32, 160})"

definition digit_value :: "char \<Rightarrow> nat option" where
  "digit_value c =
     (let n = (of_char c :: nat) in
      if 48 \<le> n \<and> n \<le> 57 then Some (n - 48)
      else if 97 \<le> n \<and> n \<le> 122 then Some (n - 87)
      else if 65 \<le> n \<and> n \<le> 90 then Some (n - 55)
      else None)"

definition is_digit :: "nat \<Rightarrow> char \<Rightarrow> bool" where
  "is_digit radix c = (case digit_value c of None \<Rightarrow> False | Some d \<Rightarrow> d < radix)"

definition digits_value :: "nat \<Rightarrow> string \<Rightarrow> nat" where
  "digits_value radix z =
     foldl (\<lambda>acc c. acc * radix + (case digit_value c of None \<Rightarrow> 0 | Some d \<Rightarrow> d)) 0 z"

definition strip_sign :: "string \<Rightarrow> int \<times> string" where
  "strip_sign s =
     (case s of
        [] \<Rightarrow> (1, s)
      | c # r \<Rightarrow> if c = CHR ''-'' then (- 1, r) else if c = CHR ''+'' then (1, r) else (1, s))"

definition strip_radix :: "string \<Rightarrow> nat \<times> string" where
  "strip_radix s =
     (case s of
        c # x # r \<Rightarrow>
          if c = CHR ''0'' \<and> (x = CHR ''x'' \<or> x = CHR ''X'') then (16, r) else (10, s)
      | _ \<Rightarrow> (10, s))"

definition parseInt :: "string \<Rightarrow> jsnum" where
  "parseInt s =
     (let (sign, s2) = strip_sign (dropWhile is_js_space s);
          (radix, s3) = strip_radix s2;
          z = takeWhile (is_digit radix) s3
      in if z = [] then NaN else Num (sign * int (digits_value radix z)))"

section \<open>The file system\<close>

text \<open>
  The only durable state of the server.  A path is the list of the components of a
  normalised absolute path (the root is \<open>[]\<close>); the file system holds its entries in the
  order in which the operating system keeps them, each with its kind and its modification
  time in milliseconds.  File contents, permissions and symbolic links are not part of the
  model.
\<close>

type_synonym path = "string list"

datatype node = File int | Directory int

fun mtime :: "node \<Rightarrow> int" where
  "mtime (File t) = t"
| "mtime (Directory t) = t"

type_synonym filesystem = "(path \<times> node) list"

datatype io_error = ENOENT | ENOTDIR | EISDIR

definition stat :: "filesystem \<Rightarrow> path \<Rightarrow> node option" where
  "stat fs p = (if p = [] then Some (Directory 0) else map_of fs p)"

definition existsSync :: "filesystem \<Rightarrow> path \<Rightarrow> bool" where
  "existsSync fs p = (stat fs p \<noteq> None)"

definition statSync :: "filesystem \<Rightarrow> path \<Rightarrow> io_error + node" where
  "statSync fs p = (case stat fs p of None \<Rightarrow> Inl ENOENT | Some n \<Rightarrow> Inr n)"

text \<open>
  The names of the entries of a directory, in the order in which the file system keeps
  them.
\<close>

definition dir_entries :: "filesystem \<Rightarrow> path \<Rightarrow> string list" where
  "dir_entries fs d = map (\<lambda>(p, n). last p) (filter (\<lambda>(p, n). p \<noteq> [] \<and> butlast p = d) fs)"

text \<open>
  \<^verbatim>\<open>fs.readdirSync(d)\<close> reads the directory with \<^verbatim>\<open>scandir\<close> of libuv, which sorts the
  names with \<^verbatim>\<open>strcmp\<close>: the result is in bytewise ascending order, whatever the order in
  the file system.
\<close>

definition readdirSync :: "filesystem \<Rightarrow> path \<Rightarrow> io_error + string list" where
  "readdirSync fs d =
     (case stat fs d of
        None \<Rightarrow> Inl ENOENT
      | Some (File _) \<Rightarrow> Inl ENOTDIR
      | Some (Directory _) \<Rightarrow> Inr (sort (dir_entries fs d)))"

definition unlinkSync :: "filesystem \<Rightarrow> path \<Rightarrow> io_error + filesystem" where
  "unlinkSync fs p =
     (case stat fs p of
        None \<Rightarrow> Inl ENOENT
      | Some (Directory _) \<Rightarrow> Inl EISDIR
      | Some (File _) \<Rightarrow> Inr (filter (\<lambda>(q, n). q \<noteq> p) fs))"

text \<open>
  What \<^verbatim>\<open>createWriteStream(p)\<close> followed by piping data into it leaves behind: an
  existing file is rewritten in place, a new file is added to an existing directory.
\<close>

definition write_file :: "filesystem \<Rightarrow> path \<Rightarrow> int \<Rightarrow> io_error + filesystem" where
  "write_file fs p t =
     (case stat fs p of
        Some (Directory _) \<Rightarrow> Inl EISDIR
      | Some (File _) \<Rightarrow> Inr (map (\<lambda>(q, n). if q = p then (q, File t) else (q, n)) fs)
      | None \<Rightarrow>
          (case stat fs (butlast p) of
             Some (Directory _) \<Rightarrow> Inr (fs @ [(p, File t)])
           | Some (File _) \<Rightarrow> Inl ENOTDIR
           | None \<Rightarrow> Inl ENOENT))"

text \<open>
  \<^verbatim>\<open>path.resolve(cwd, ...args)\<close> on POSIX: an argument that starts with \<^verbatim>\<open>/\<close> restarts
  from the root, empty components and \<^verbatim>\<open>.\<close> are dropped, \<^verbatim>\<open>..\<close> removes the last
  component (and stays at the root).
\<close>

fun normalize_onto :: "path \<Rightarrow> string list \<Rightarrow> path" where
  "normalize_onto acc [] = acc"
| "normalize_onto acc (s # ss) =
     (if s = [] \<or> s = ''.'' then normalize_onto acc ss
      else if s = ''..'' then normalize_onto (butlast acc) ss
      else normalize_onto (acc @ [s]) ss)"

definition resolve_step :: "path \<Rightarrow> string \<Rightarrow> path" where
  "resolve_step acc a =
     (case a of
        [] \<Rightarrow> acc
      | c # _ \<Rightarrow>
          if c = CHR ''/'' then normalize_onto [] (js_split (CHR ''/'') a)
          else normalize_onto acc (js_split (CHR ''/'') a))"

definition path_resolve :: "path \<Rightarrow> string list \<Rightarrow> path" where
  "path_resolve cwd args = foldl resolve_step cwd args"

section \<open>Configuration and environment\<close>

text \<open>
  The constants read from the process environment at startup, and \<^verbatim>\<open>__dirname\<close>.
  \<^verbatim>\<open>const UPLOAD_LIMIT_MB = parseInt(process.env.UPLOAD_LIMIT_MB);\<close>
\<close>

record config =
  SITE_BASEURL :: string
  ADMIN_USER :: string
  ADMIN_PASS :: string
  UPLOAD_LIMIT_MB :: jsnum
  dirname :: path

definition storage_dir :: "config \<Rightarrow> path" where
  "storage_dir cfg = path_resolve (dirname cfg) [''storage'']"

section \<open>Directory scanner\<close>

text \<open>
  \<^verbatim>\<open>array.sort(compareFn)\<close>: the sort of ECMAScript is stable, so for a consistent
  comparator its result is the one an insertion sort produces, where an element is placed
  before the first element it does not have to follow.
\<close>

fun insert_sorted :: "('a \<Rightarrow> 'a \<Rightarrow> int) \<Rightarrow> 'a \<Rightarrow> 'a list \<Rightarrow> 'a list" where
  "insert_sorted compareFn x [] = [x]"
| "insert_sorted compareFn x (y # ys) =
     (if compareFn x y \<le> 0 then x # y # ys else y # insert_sorted compareFn x ys)"

definition js_sort :: "('a \<Rightarrow> 'a \<Rightarrow> int) \<Rightarrow> 'a list \<Rightarrow> 'a list" where
  "js_sort compareFn xs = foldr (insert_sorted compareFn) xs []"

text \<open>
  \<^verbatim>\<open>function readSyncImageFiles() {
    return fs
      .readdirSync(path.join(__dirname, "storage"))
      .filter((fileName) => ALLOWED_FORMATS_REGEX.test(fileName))
      .map((fileName) => ({ fileName,
            time: fs.statSync(path.join(__dirname, "storage", fileName)).mtime.getTime() }))
      .sort((a, b) => b.time - a.time)
      .map((file) => file.fileName);
  }\<close>
  The file names come from \<^verbatim>\<open>readdirSync\<close>, so joining one to the storage directory
  appends one component.
\<close>

record image_file =
  fileName :: string
  time :: int

fun stat_files :: "filesystem \<Rightarrow> path \<Rightarrow> string list \<Rightarrow> io_error + image_file list" where
  "stat_files fs d [] = Inr []"
| "stat_files fs d (n # ns) =
     (case statSync fs (d @ [n]) of
        Inl e \<Rightarrow> Inl e
      | Inr nd \<Rightarrow>
          (case stat_files fs d ns of
             Inl e \<Rightarrow> Inl e
           | Inr rest \<Rightarrow> Inr (\<lparr> fileName = n, time = mtime nd \<rparr> # rest)))"

definition newest_first :: "image_file \<Rightarrow> image_file \<Rightarrow> int" where
  "newest_first a b = time b - time a"

definition readSyncImageFiles :: "config \<Rightarrow> filesystem \<Rightarrow> io_error + string list" where
  "readSyncImageFiles cfg fs =
     (case readdirSync fs (storage_dir cfg) of
        Inl e \<Rightarrow> Inl e
      | Inr names \<Rightarrow>
          (case stat_files fs (storage_dir cfg) (filter ALLOWED_FORMATS_REGEX_test names) of
             Inl e \<Rightarrow> Inl e
           | Inr stamped \<Rightarrow> Inr (map fileName (js_sort newest_first stamped))))"

section \<open>Filename generator\<close>

text \<open>
  \<^verbatim>\<open>moment(Date.now()).format("YYYYMMDDHHmmss")\<close>.  The calendar fields that the moment
  library derives from \<^verbatim>\<open>Date.now()\<close> in the time zone of the process are the input; the
  format prints them in decimal with leading zeros (years up to 9999).
\<close>

record local_time =
  year :: nat
  month :: nat
  date :: nat
  hour :: nat
  minute :: nat
  second :: nat
  millisecond :: nat

definition digit_char :: "nat \<Rightarrow> char" where
  "digit_char d = ''0123456789'' ! (d mod 10)"

definition two_digits :: "nat \<Rightarrow> string" where
  "two_digits n = [digit_char (n div 10), digit_char n]"

definition four_digits :: "nat \<Rightarrow> string" where
  "four_digits n = [digit_char (n div 1000), digit_char (n div 100), digit_char (n div 10), digit_char n]"

definition format_YYYYMMDDHHmmss :: "local_time \<Rightarrow> string" where
  "format_YYYYMMDDHHmmss t =
     four_digits (year t) @ two_digits (month t) @ two_digits (date t) @
     two_digits (hour t) @ two_digits (minute t) @ two_digits (second t)"

text \<open>
  \<^verbatim>\<open>originalname.match(/\..*$/)\<close>: the leftmost dot from which no line terminator
  occurs up to the end of the string (\<^verbatim>\<open>.\<close> does not match a line terminator), with the
  rest of the string; \<^verbatim>\<open>null\<close> without such a dot.
\<close>

definition is_line_terminator :: "char \<Rightarrow> bool" where
  "is_line_terminator c = (c = CHR 0x0A \<or> c = CHR 0x0D)"

fun match_dot_rest :: "string \<Rightarrow> string option" where
  "match_dot_rest [] = None"
| "match_dot_rest (c # cs) =
     (if c = CHR ''.'' \<and> \<not> list_ex is_line_terminator cs then Some (c # cs)
      else match_dot_rest cs)"

datatype js_error =
    TypeError
  | FsError io_error
  | AxiosError
  | MulterError string
  | ExtensionError string

record multipart_file =
  fieldname :: string
  originalname :: string
  mimetype :: string
  filesize :: nat

text \<open>
  The \<^verbatim>\<open>filename\<close> callback of \<^verbatim>\<open>multer.diskStorage\<close>:
  \<^verbatim>\<open>cb(null,
      file.originalname.split(".")[0] + "-" +
      moment(Date.now()).format("YYYYMMDDHHmmss") +
      file.originalname.match(/\..*$/)![0]);\<close>
  The \<^verbatim>\<open>!\<close> is erased by the compiler: indexing \<^verbatim>\<open>null\<close> throws a \<^verbatim>\<open>TypeError\<close>.
\<close>

definition filename :: "local_time \<Rightarrow> multipart_file \<Rightarrow> js_error + string" where
  "filename now file =
     (let base = (case js_split (CHR ''.'') (originalname file) of [] \<Rightarrow> ''undefined'' | b # _ \<Rightarrow> b);
          stamp = format_YYYYMMDDHHmmss now
      in case match_dot_rest (originalname file) of
           None \<Rightarrow> Inl TypeError
         | Some m \<Rightarrow> Inr (base @ ''-'' @ stamp @ m))"

text \<open>
  The name of a remotely fetched image:
  \<^verbatim>\<open>const ext = contentType.split("/")[1];
  const destFileName = `${uuidv4()}-${moment(Date.now()).format("YYYYMMDDHHmmss")}.${ext}`\<close>
  A missing second segment is \<^verbatim>\<open>undefined\<close>, which the template prints as such.
\<close>

definition content_type_ext :: "string \<Rightarrow> string" where
  "content_type_ext contentType =
     (case js_split (CHR ''/'') contentType of _ # e # _ \<Rightarrow> e | _ \<Rightarrow> ''undefined'')"

definition destFileName :: "string \<Rightarrow> local_time \<Rightarrow> string \<Rightarrow> string" where
  "destFileName uuid now contentType =
     uuid @ ''-'' @ format_YYYYMMDDHHmmss now @ ''.'' @ content_type_ext contentType"

section \<open>Access gate\<close>

text \<open>
  \<^verbatim>\<open>compare\<close> is the function of the tsscmp package: it answers whether its two
  arguments are the same string, in time independent of where they differ.  The model has
  its result only.
\<close>

definition compare :: "string \<Rightarrow> string \<Rightarrow> bool" where
  "compare a b = (a = b)"

text \<open>
  \<^verbatim>\<open>function checkAuth(user: string, pass: string) {
    let valid = true;
    valid = compare(user, ADMIN_USER) && valid;
    valid = compare(pass, ADMIN_PASS) && valid;
    return valid;
  }\<close>
\<close>

definition checkAuth :: "config \<Rightarrow> string \<Rightarrow> string \<Rightarrow> bool" where
  "checkAuth cfg user pass =
     (let valid = True;
          valid = (compare user (ADMIN_USER cfg) \<and> valid);
          valid = (compare pass (ADMIN_PASS cfg) \<and> valid)
      in valid)"

section \<open>HTTP route layer\<close>

text \<open>
  A request carries what the handlers read: the result of \<^verbatim>\<open>auth(req)\<close> (the name and
  the password of a Basic \<^verbatim>\<open>Authorization\<close> header, if there is a well-formed one), the
  parsed query string, and the files of a multipart body.  A query value is a string, or
  an array or object for a repeated or bracketed parameter.
\<close>

datatype query_value = QString string | QStructured

record request =
  credentials :: "(string \<times> string) option"
  query :: "(string \<times> query_value) list"
  uploads :: "multipart_file list"

text \<open>
  What lies outside the process at the time of a request: the calendar fields of
  \<^verbatim>\<open>Date.now()\<close>, the clock that stamps written files, the 16 random bytes that
  \<^verbatim>\<open>uuidv4()\<close> draws, and for every URL the settlement of the promise
  \<^verbatim>\<open>axios({method: "get", url})\<close>: rejected, or resolved with a response whose
  \<^verbatim>\<open>content-type\<close> header may be missing.
\<close>

datatype axios_result = Rejected | Resolved "string option"

record environment =
  now :: local_time
  clock :: int
  random_bytes :: "nat list"
  axios_get :: "string \<Rightarrow> axios_result"

text \<open>
  \<^verbatim>\<open>uuidv4()\<close> of the uuid package: the version and variant bits are set in bytes 6 and 8
  (\<^verbatim>\<open>rnds[6] = (rnds[6] & 0x0f) | 0x40; rnds[8] = (rnds[8] & 0x3f) | 0x80\<close>) and the bytes are
  printed as lower-case hexadecimal pairs in groups of 4, 2, 2, 2 and 6 bytes, the groups
  separated by hyphens.
\<close>

definition hex_digit :: "nat \<Rightarrow> char" where
  "hex_digit d = ''0123456789abcdef'' ! (d mod 16)"

definition byte_to_hex :: "nat \<Rightarrow> string" where
  "byte_to_hex b = [hex_digit (b div 16), hex_digit b]"

definition uuid_byte :: "nat list \<Rightarrow> nat \<Rightarrow> nat" where
  "uuid_byte rnds i =
     (let b = (if i < length rnds then rnds ! i mod 256 else 0) in
      if i = 6 then b mod 16 + 64 else if i = 8 then b mod 64 + 128 else b)"

definition hex_group :: "nat list \<Rightarrow> nat list \<Rightarrow> string" where
  "hex_group rnds positions = concat (map (\<lambda>i. byte_to_hex (uuid_byte rnds i)) positions)"

definition uuidv4 :: "nat list \<Rightarrow> string" where
  "uuidv4 rnds =
     hex_group rnds [0, 1, 2, 3] @ ''-'' @ hex_group rnds [4, 5] @ ''-'' @
     hex_group rnds [6, 7] @ ''-'' @ hex_group rnds [8, 9] @ ''-'' @
     hex_group rnds [10, 11, 12, 13, 14, 15]"

datatype page =
    IndexPage ImageProvider
  | DeletePage ImageProvider

datatype body =
    NoBody
  | Text string
  | Html page
  | Fields "(string \<times> string) list"
  | Failure js_error

record response =
  status :: nat
  headers :: "(string \<times> string) list"
  body :: body

text \<open>
  A handler sends a response, passes the request on with \<^verbatim>\<open>next()\<close>, or lets an
  exception escape.
\<close>

datatype outcome = Responded response | Next | Uncaught js_error

text \<open>
  The test \<^verbatim>\<open>v && typeof v === "string"\<close> on a query parameter, with the string when it
  succeeds: the parameter is present, a string, and not empty.
\<close>

definition string_param :: "request \<Rightarrow> string \<Rightarrow> string option" where
  "string_param req name =
     (case map_of (query req) name of
        Some (QString s) \<Rightarrow> if s \<noteq> [] then Some s else None
      | _ \<Rightarrow> None)"

text \<open>\<^verbatim>\<open>const index = page && typeof page === "string" ? parseInt(page) : 1\<close>\<close>

definition page_index :: "request \<Rightarrow> jsnum" where
  "page_index req = (case string_param req ''page'' of Some page \<Rightarrow> parseInt page | None \<Rightarrow> Num 1)"

text \<open>
  \<^verbatim>\<open>app.get("/", ...)\<close>.  The HTML is a function of the provider; an exception of the
  scanner escapes the handler.
\<close>

definition get_index :: "config \<Rightarrow> filesystem \<Rightarrow> request \<Rightarrow> outcome" where
  "get_index cfg fs req =
     (case readSyncImageFiles cfg fs of
        Inl e \<Rightarrow> Uncaught (FsError e)
      | Inr fl \<Rightarrow>
          Responded \<lparr> status = 200,
            headers = [(''Content-Type'', ''text/html''), (''Content-DPR'', ''2.0'')],
            body = Html (IndexPage \<lparr> all_files = fl,
                                     pagination = make_pagination fl (page_index req) \<rparr>) \<rparr>)"

text \<open>\<^verbatim>\<open>app.get("/delete", ...)\<close>: the same computation, rendered by the delete page.\<close>

definition get_delete :: "config \<Rightarrow> filesystem \<Rightarrow> request \<Rightarrow> outcome" where
  "get_delete cfg fs req =
     (case readSyncImageFiles cfg fs of
        Inl e \<Rightarrow> Uncaught (FsError e)
      | Inr fl \<Rightarrow>
          Responded \<lparr> status = 200,
            headers = [(''Content-Type'', ''text/html''), (''Content-DPR'', ''2.0'')],
            body = Html (DeletePage \<lparr> all_files = fl,
                                      pagination = make_pagination fl (page_index req) \<rparr>) \<rparr>)"

text \<open>
  The gate at the head of every admin operation:
  \<^verbatim>\<open>const credentials = auth(req);
  if (!credentials || !checkAuth(credentials.name, credentials.pass)) {
    res.status(401);
    res.setHeader("WWW-Authenticate", 'Basic realm="Access to the staging site", charset="UTF-8"');
    res.end("Access denied");
    return;
  }\<close>
\<close>

definition authorized :: "config \<Rightarrow> request \<Rightarrow> bool" where
  "authorized cfg req =
     (case credentials req of None \<Rightarrow> False | Some (name, pass) \<Rightarrow> checkAuth cfg name pass)"

definition access_denied :: response where
  \<open>access_denied =
     \<lparr> status = 401,
       headers = [(''WWW-Authenticate'', ''Basic realm="Access to the staging site", charset="UTF-8"'')],
       body = Text ''Access denied'' \<rparr>\<close>

text \<open>
  \<^verbatim>\<open>app.delete("/delete", ...)\<close>.  When \<^verbatim>\<open>unlinkSync\<close> throws, the response is sent in
  the \<^verbatim>\<open>catch\<close> block; the \<^verbatim>\<open>res.status(204); res.end()\<close> that follow act on a response
  already sent.
\<close>

definition delete_delete :: "config \<Rightarrow> filesystem \<Rightarrow> request \<Rightarrow> outcome \<times> filesystem" where
  "delete_delete cfg fs req =
     (if \<not> authorized cfg req then (Responded access_denied, fs)
      else case string_param req ''fileName'' of
        None \<Rightarrow> (Next, fs)
      | Some fname \<Rightarrow>
          (let target = path_resolve (dirname cfg) [''storage'', fname] in
           if \<not> existsSync fs target
           then (Responded \<lparr> status = 404, headers = [], body = NoBody \<rparr>, fs)
           else case unlinkSync fs target of
                  Inl e \<Rightarrow>
                    (Responded \<lparr> status = 500, headers = [], body = Failure (FsError e) \<rparr>, fs)
                | Inr fs' \<Rightarrow>
                    (Responded \<lparr> status = 204, headers = [], body = NoBody \<rparr>, fs')))"

text \<open>
  \<^verbatim>\<open>app.put("/url2image", ...)\<close>.  A missing \<^verbatim>\<open>content-type\<close> makes \<^verbatim>\<open>startsWith\<close>
  throw inside \<^verbatim>\<open>then\<close>, which \<^verbatim>\<open>catch\<close> answers like a rejected request.  The response
  is sent before the stream has written the file; a stream that cannot be opened leaves
  the storage as it was.
\<close>

definition put_url2image ::
    "config \<Rightarrow> environment \<Rightarrow> filesystem \<Rightarrow> request \<Rightarrow> outcome \<times> filesystem" where
  "put_url2image cfg env fs req =
     (if \<not> authorized cfg req then (Responded access_denied, fs)
      else case string_param req ''url'' of
        None \<Rightarrow> (Next, fs)
      | Some url \<Rightarrow>
          (case axios_get env url of
             Rejected \<Rightarrow>
               (Responded \<lparr> status = 500, headers = [], body = Failure AxiosError \<rparr>, fs)
           | Resolved None \<Rightarrow>
               (Responded \<lparr> status = 500, headers = [], body = Failure TypeError \<rparr>, fs)
           | Resolved (Some contentType) \<Rightarrow>
               if \<not> startsWith contentType ''image''
               then (Responded \<lparr> status = 500, headers = [], body = NoBody \<rparr>, fs)
               else
                 (let dest = destFileName (uuidv4 (random_bytes env)) (now env) contentType;
                      target = path_resolve (dirname cfg) [''storage'', dest];
                      fs' = (case write_file fs target (clock env) of
                               Inl e \<Rightarrow> fs
                             | Inr written \<Rightarrow> written)
                  in (Responded \<lparr> status = 200, headers = [],
                        body = Fields [(''imageUrl'', SITE_BASEURL cfg @ ''/'' @ dest),
                                       (''fileName'', dest)] \<rparr>, fs'))))"

text \<open>
  The \<^verbatim>\<open>fileFilter\<close> of the uploader accepts a file by the MIME type the client
  declares; for any other type it hands the error named \<^verbatim>\<open>ExtensionError\<close> to multer,
  whose message ends with \<^verbatim>\<open>ALLOWED_FORMATS\<close>.
\<close>

definition ALLOWED_FORMATS :: string where
  "ALLOWED_FORMATS = ''.png .jpg .jpeg .gif .webp .bmp .tiff .svg''"

definition fileFilter :: "multipart_file \<Rightarrow> js_error option" where
  "fileFilter file =
     (if mimetype file = ''image/png'' \<or>
         mimetype file = ''image/jpg'' \<or>
         mimetype file = ''image/jpeg'' \<or>
         mimetype file = ''image/gif'' \<or>
         mimetype file = ''image/webp'' \<or>
         mimetype file = ''image/bmp'' \<or>
         mimetype file = ''image/tiff'' \<or>
         mimetype file = ''image/svg+xml''
      then None
      else Some (ExtensionError ALLOWED_FORMATS))"

text \<open>\<^verbatim>\<open>limits: { fileSize: UPLOAD_LIMIT_MB * 1024 * 1024 }\<close>; no size exceeds \<^verbatim>\<open>NaN\<close>.\<close>

definition exceeds_limit :: "config \<Rightarrow> multipart_file \<Rightarrow> bool" where
  "exceeds_limit cfg file =
     (case js_mul (js_mul (UPLOAD_LIMIT_MB cfg) (Num 1024)) (Num 1024) of
        NaN \<Rightarrow> False
      | Num limit \<Rightarrow> limit < int (filesize file))"

text \<open>
  The middleware \<^verbatim>\<open>multer({storage, limits, fileFilter}).array("images", 4)\<close>.  The multer
  package is not part of the repository; this is its contract for the disk storage: the
  files of the body are handled in order, a file in another field or beyond the fourth
  is an error of multer, the file filter and then the \<^verbatim>\<open>filename\<close> callback run for each
  file, the file is written to \<^verbatim>\<open>path.join(destination, filename)\<close>, and when the upload is
  aborted the files written so far are removed.  An exception thrown by the \<^verbatim>\<open>filename\<close>
  callback is not caught by multer.
\<close>

datatype upload_result = Done | Failed js_error | Thrown js_error

definition remove_uploaded :: "path list \<Rightarrow> filesystem \<Rightarrow> filesystem" where
  "remove_uploaded written fs =
     foldl (\<lambda>acc p. case unlinkSync acc p of Inl e \<Rightarrow> acc | Inr fs' \<Rightarrow> fs') fs written"

fun handle_files ::
    "config \<Rightarrow> environment \<Rightarrow> nat \<Rightarrow> path list \<Rightarrow> filesystem \<Rightarrow> multipart_file list
       \<Rightarrow> upload_result \<times> filesystem" where
  "handle_files cfg env left written fs [] = (Done, fs)"
| "handle_files cfg env left written fs (file # rest) =
     (if fieldname file \<noteq> ''images'' \<or> left = 0
      then (Failed (MulterError ''Unexpected field''), remove_uploaded written fs)
      else case fileFilter file of
        Some err \<Rightarrow> (Failed err, remove_uploaded written fs)
      | None \<Rightarrow>
          (case filename (now env) file of
             Inl err \<Rightarrow> (Thrown err, fs)
           | Inr name \<Rightarrow>
               (let target = normalize_onto (storage_dir cfg) (js_split (CHR ''/'') name) in
                case write_file fs target (clock env) of
                  Inl e \<Rightarrow> (Failed (FsError e), remove_uploaded written fs)
                | Inr fs' \<Rightarrow>
                    if exceeds_limit cfg file
                    then (Failed (MulterError ''File too large''),
                          remove_uploaded (target # written) fs')
                    else handle_files cfg env (left - 1) (target # written) fs' rest)))"

definition uploader :: "config \<Rightarrow> environment \<Rightarrow> filesystem \<Rightarrow> request \<Rightarrow> upload_result \<times> filesystem" where
  "uploader cfg env fs req = handle_files cfg env 4 [] fs (uploads req)"

text \<open>
  \<^verbatim>\<open>app.post("/upload", ...)\<close>: behind the gate, the callback of the uploader answers 500
  for an error of multer, 413 for the \<^verbatim>\<open>ExtensionError\<close>, 500 for any other error, and
  redirects to the site otherwise.
\<close>

definition post_upload ::
    "config \<Rightarrow> environment \<Rightarrow> filesystem \<Rightarrow> request \<Rightarrow> outcome \<times> filesystem" where
  "post_upload cfg env fs req =
     (if \<not> authorized cfg req then (Responded access_denied, fs)
      else case uploader cfg env fs req of
        (Thrown err, fs') \<Rightarrow> (Uncaught err, fs')
      | (Failed (MulterError m), fs') \<Rightarrow>
          (Responded \<lparr> status = 500, headers = [], body = Failure (MulterError m) \<rparr>, fs')
      | (Failed (ExtensionError m), fs') \<Rightarrow>
          (Responded \<lparr> status = 413, headers = [], body = Failure (ExtensionError m) \<rparr>, fs')
      | (Failed err, fs') \<Rightarrow>
          (Responded \<lparr> status = 500, headers = [], body = Failure err \<rparr>, fs')
      | (Done, fs') \<Rightarrow>
          (Responded \<lparr> status = 302, headers = [(''Location'', SITE_BASEURL cfg)],
             body = NoBody \<rparr>, fs'))"

section \<open>Vocabulary of the specification\<close>

text \<open>
  The specification speaks of the last-modified time of a file name of the storage
  directory and of the extension of a file name: the text after its last dot.
\<close>

definition entry_time :: "filesystem \<Rightarrow> path \<Rightarrow> string \<Rightarrow> int" where
  "entry_time fs d n = (case stat fs (d @ [n]) of None \<Rightarrow> 0 | Some nd \<Rightarrow> mtime nd)"

definition extension :: "string \<Rightarrow> string option" where
  "extension name =
     (if CHR ''.'' \<in> set name then Some (rev (takeWhile (\<lambda>c. c \<noteq> CHR ''.'') (rev name))) else None)"

definition base_name :: "string \<Rightarrow> string" where
  "base_name name =
     (if CHR ''.'' \<in> set name then rev (tl (dropWhile (\<lambda>c. c \<noteq> CHR ''.'') (rev name))) else name)"

text \<open>
  A file name proper, as a directory lists it: not empty, not \<^verbatim>\<open>.\<close> or \<^verbatim>\<open>..\<close>, and
  without a path separator.
\<close>

definition plain_name :: "string \<Rightarrow> bool" where
  "plain_name n = (n \<noteq> [] \<and> n \<noteq> ''.'' \<and> n \<noteq> ''..'' \<and> CHR ''/'' \<notin> set n)"

text \<open>
  The allow-list in the words of the specification: png, jpg/jpeg, gif, webp, bmp, tiff,
  svg.
\<close>

definition spec_allow_list :: "string list" where
  "spec_allow_list = [''png'', ''jpg'', ''jpeg'', ''gif'', ''webp'', ''bmp'', ''tiff'', ''svg'']"

text \<open>
  The destination name in the words of the specification: the base name without the
  extension, a hyphen, the time stamp, a dot and the original extension.
\<close>

definition spec_upload_name :: "local_time \<Rightarrow> string \<Rightarrow> string option" where
  "spec_upload_name t name =
     (case extension name of
        None \<Rightarrow> None
      | Some ext \<Rightarrow> Some (base_name name @ ''-'' @ format_YYYYMMDDHHmmss t @ ''.'' @ ext))"

section \<open>Sample data\<close>

text \<open>The configuration of the README, installed in \<^verbatim>\<open>/app\<close>, and an instant.\<close>

definition sample_config :: config where
  "sample_config =
     \<lparr> SITE_BASEURL = ''https://foo.com'', ADMIN_USER = ''hoge'', ADMIN_PASS = ''foo'',
       UPLOAD_LIMIT_MB = Num 4, dirname = [''app''] \<rparr>"

definition sample_time :: local_time where
  "sample_time =
     \<lparr> year = 2024, month = 1, date = 2, hour = 3, minute = 4, second = 5, millisecond = 678 \<rparr>"

definition sample_environment :: environment where
  "sample_environment =
     \<lparr> now = sample_time, clock = 1704132245678,
       random_bytes = [0x9b, 0x1d, 0xeb, 0x4d, 0x3b, 0x7d, 0x4b, 0xad,
                       0x9b, 0xdd, 0x2b, 0x0d, 0x7b, 0x3d, 0xcb, 0x6d],
       axios_get = (\<lambda>url. if url = ''https://example.com/logo''
                           then Resolved (Some ''image/png'')
                           else if url = ''https://example.com/''
                           then Resolved (Some ''text/html'')
                           else Rejected) \<rparr>"

definition admin_request :: "(string \<times> query_value) list \<Rightarrow> multipart_file list \<Rightarrow> request" where
  "admin_request q fl = \<lparr> credentials = Some (''hoge'', ''foo''), query = q, uploads = fl \<rparr>"

text \<open>
  A storage directory with two images of the same modification time, a text file, a newer
  image and a subdirectory; the same directory kept by the file system in another order;
  and an installation without a storage directory.
\<close>

definition sample_fs :: filesystem where
  "sample_fs =
     [([''app''], Directory 0),
      ([''app'', ''app.js''], File 1),
      ([''app'', ''storage''], Directory 2),
      ([''app'', ''storage'', ''a.png''], File 5),
      ([''app'', ''storage'', ''b.tif''], File 5),
      ([''app'', ''storage'', ''notes.txt''], File 6),
      ([''app'', ''storage'', ''c.JPG''], File 7),
      ([''app'', ''storage'', ''thumbs''], Directory 8)]"

definition sample_fs_reordered :: filesystem where
  "sample_fs_reordered =
     [([''app''], Directory 0),
      ([''app'', ''app.js''], File 1),
      ([''app'', ''storage''], Directory 2),
      ([''app'', ''storage'', ''thumbs''], Directory 8),
      ([''app'', ''storage'', ''c.JPG''], File 7),
      ([''app'', ''storage'', ''notes.txt''], File 6),
      ([''app'', ''storage'', ''b.tif''], File 5),
      ([''app'', ''storage'', ''a.png''], File 5)]"


section \<open>Properties of the pagination\<close>

lemma take_drop_nth: "take n (drop k xs) = map (nth xs) [min k (length xs) ..< min (k + n) (length xs)]"
proof (rule nth_equalityI)
  show "length (take n (drop k xs)) = length (map ((!) xs) [min k (length xs)..<min (k + n) (length xs)])"
    by (auto simp: min_def)
next
  fix i assume "i < length (take n (drop k xs))"
  then have i: "i < n" "k + i < length xs" by auto
  then have "min k (length xs) = k" "min k (length xs) + i < min (k + n) (length xs)" by auto
  then show "take n (drop k xs) ! i = map ((!) xs) [min k (length xs)..<min (k + n) (length xs)] ! i"
    using i by (simp add: nth_upt)
qed

lemma slice_nonneg:
  assumes "0 \<le> a" and "a \<le> b"
  shows "slice xs (Num a) (Num b) = take (nat (b - a)) (drop (nat a) xs)"
proof -
  let ?n = "int (length xs)"
  have k: "relative_index ?n a = min a ?n" using assms by (simp add: relative_index_def)
  have f: "relative_index ?n b = min b ?n" using assms by (simp add: relative_index_def)
  have "take (nat (min b ?n - min a ?n)) (drop (nat (min a ?n)) xs) = take (nat (b - a)) (drop (nat a) xs)"
  proof (cases "a \<le> ?n")
    case True
    then show ?thesis using assms by (cases "b \<le> ?n") (simp_all add: min_def)
  next
    case False
    then show ?thesis using assms by (simp add: min_def)
  qed
  then show ?thesis by (simp add: slice_def Let_def k f)
qed

lemma slice_negative:
  assumes "a < 0" and "b \<le> 0"
  shows "slice xs (Num a) (Num b) = [] \<longleftrightarrow> b = 0 \<or> int (length xs) + b \<le> 0 \<or> b \<le> a"
  using assms by (auto simp: slice_def Let_def relative_index_def max_def)

lemma paginate_pos:
  assumes "1 \<le> i" "0 \<le> s"
  shows "paginate xs (Num s) (Num i) = take (nat s) (drop (nat ((i - 1) * s)) xs)"
proof -
  have a: "0 \<le> (i - 1) * s" using assms by simp
  have c: "i * s - (i - 1) * s = s" by (simp add: algebra_simps)
  then have b: "(i - 1) * s \<le> i * s" using assms by linarith
  show ?thesis unfolding paginate_def using slice_nonneg[OF a b, of xs] by (simp add: c)
qed

lemma paginate_empty_iff:
  assumes "1 \<le> i" "0 \<le> s"
  shows "paginate xs (Num s) (Num i) = [] \<longleftrightarrow> s = 0 \<or> int (length xs) \<le> (i - 1) * s"
proof -
  have a: "0 \<le> (i - 1) * s" using assms by simp
  have "length xs \<le> nat ((i - 1) * s) \<longleftrightarrow> int (length xs) \<le> (i - 1) * s"
    using a by linarith
  then show ?thesis using assms by (auto simp: paginate_pos)
qed


lemma slice_NaN: "slice xs NaN NaN = []"
  by (simp add: slice_def relative_index_def)

lemma paginate_NaN: "paginate xs sz NaN = []"
  by (simp add: paginate_def slice_NaN)

text \<open>
  Claim C1.  For every list, page size \<open>s \<ge> 0\<close> and 1-based page index \<open>i \<ge> 1\<close>,
  \<open>paginate\<close> returns the elements at the positions \<open>(i-1)*s, ..., i*s - 1\<close>, cut off at the
  length of the list; a page that starts at or beyond the end is empty.  On a list of 25
  elements with page size 20, page 1 is the first 20 elements, page 2 the remaining 5 and
  page 3 is empty.
\<close>

theorem paginate_slice:
  assumes "1 \<le> i" and "0 \<le> s"
  shows "paginate xs (Num s) (Num i)
           = map (nth xs) [min (nat ((i - 1) * s)) (length xs) ..< min (nat (i * s)) (length xs)]
       \<and> (int (length xs) \<le> (i - 1) * s \<longrightarrow> paginate xs (Num s) (Num i) = [])
       \<and> (length xs = 25 \<longrightarrow>
            paginate xs PAGE_SIZE (Num 1) = take 20 xs \<and>
            paginate xs PAGE_SIZE (Num 2) = drop 20 xs \<and>
            paginate xs PAGE_SIZE (Num 3) = [])"
proof -
  have a: "0 \<le> (i - 1) * s" using assms by simp
  have "nat (i * s) = nat ((i - 1) * s) + nat s"
    using a assms by (simp add: algebra_simps nat_add_distrib)
  then have "paginate xs (Num s) (Num i)
           = map (nth xs) [min (nat ((i - 1) * s)) (length xs) ..< min (nat (i * s)) (length xs)]"
    using assms by (simp add: paginate_pos take_drop_nth)
  moreover have "int (length xs) \<le> (i - 1) * s \<longrightarrow> paginate xs (Num s) (Num i) = []"
    using assms by (simp add: paginate_empty_iff)
  moreover have "length xs = 25 \<longrightarrow>
            paginate xs PAGE_SIZE (Num 1) = take 20 xs \<and>
            paginate xs PAGE_SIZE (Num 2) = drop 20 xs \<and>
            paginate xs PAGE_SIZE (Num 3) = []"
    by (simp add: PAGE_SIZE_def paginate_pos)
  ultimately show ?thesis by blast
qed

theorem paginate_slice_witness:
  "(1::int) \<le> 2 \<and> (0::int) \<le> 20 \<and>
   paginate [''a'', ''b'', ''c'', ''d'', ''e'', ''f'', ''g'', ''h'', ''i'', ''j'', ''k'', ''l'', ''m'', ''n'', ''o'', ''p'', ''q'', ''r'', ''s'', ''t'', ''u'', ''v'', ''w'', ''x'', ''y''] PAGE_SIZE (Num 2) = [''u'', ''v'', ''w'', ''x'', ''y'']"
  using paginate_slice [of 2 20 "[''a'', ''b'', ''c'', ''d'', ''e'', ''f'', ''g'', ''h'', ''i'', ''j'', ''k'', ''l'', ''m'', ''n'', ''o'', ''p'', ''q'', ''r'', ''s'', ''t'', ''u'', ''v'', ''w'', ''x'', ''y'']"]
  by simp

lemma prev_None_iff:
  "prev (make_pagination fl idx) = None \<longleftrightarrow> paginate fl PAGE_SIZE (js_sub idx (Num 1)) = []"
  by (simp add: make_pagination_def Let_def)

lemma nxt_None_iff:
  "nxt (make_pagination fl idx) = None \<longleftrightarrow> paginate fl PAGE_SIZE (js_add idx (Num 1)) = []"
  by (simp add: make_pagination_def Let_def)

lemma paginate_nonpos_empty_iff:
  assumes "i \<le> 0"
  shows "paginate xs PAGE_SIZE (Num i) = [] \<longleftrightarrow> i = 0 \<or> int (length xs) \<le> - i * 20"
proof -
  have "(i - 1) * 20 < 0" "i * 20 \<le> 0" using assms by simp_all
  then have "slice xs (Num ((i - 1) * 20)) (Num (i * 20)) = []
      \<longleftrightarrow> i * 20 = 0 \<or> int (length xs) + i * 20 \<le> 0 \<or> i * 20 \<le> (i - 1) * 20"
    by (rule slice_negative)
  moreover have "(i - 1) * 20 = i * 20 - 20" by simp
  ultimately show ?thesis using assms by (auto simp: paginate_def PAGE_SIZE_def)
qed

text \<open>
  Claim C2, as stated, at the requested index 0: the index is \<open>\<le> 1\<close>, yet with 25 files
  \<open>prev\<close> is present (it is \<open>-1\<close>), because the offsets \<open>-40\<close> and \<open>-20\<close> of the slice for
  index \<open>-1\<close> count from the end of the list.
\<close>

theorem prev_present_at_index_zero:
  "page_index \<lparr> credentials = None, query = [(''page'', QString ''0'')], uploads = [] \<rparr> = Num 0 \<and>
   (0::int) \<le> 1 \<and>
   prev (make_pagination [''a'', ''b'', ''c'', ''d'', ''e'', ''f'', ''g'', ''h'', ''i'', ''j'', ''k'', ''l'', ''m'', ''n'', ''o'', ''p'', ''q'', ''r'', ''s'', ''t'', ''u'', ''v'', ''w'', ''x'', ''y''] (Num 0)) = Some (Num (- 1))"
  by (simp add: page_index_def string_param_def parseInt_def strip_sign_def strip_radix_def
      is_js_space_def is_digit_def digit_value_def digits_value_def
      make_pagination_def Let_def paginate_def PAGE_SIZE_def slice_def relative_index_def)

text \<open>
  Claim C2, amended.  For every file list and integer index \<open>i\<close>: \<open>prev\<close> is absent exactly
  when the slice taken for \<open>i - 1\<close> is empty and \<open>next\<close> is absent exactly when the slice taken
  for \<open>i + 1\<close> is empty; a present \<open>prev\<close> is \<open>i - 1\<close> and a present \<open>next\<close> is \<open>i + 1\<close>.  For
  \<open>i \<ge> 1\<close> this is the claim: \<open>prev\<close> is absent exactly when \<open>i \<le> 1\<close> or the slice for
  \<open>i - 1\<close> is empty, that is when \<open>i = 1\<close> or the list has at most \<open>(i-2)*20\<close> files, and \<open>next\<close>
  is absent exactly when the list has at most \<open>i*20\<close> files.  For \<open>i \<le> 0\<close>, \<open>prev\<close> is absent
  exactly when the list has at most \<open>(1-i)*20\<close> files.
\<close>

theorem pagination_prev_next:
  "(prev (make_pagination fl (Num i)) = None \<longleftrightarrow> paginate fl PAGE_SIZE (Num (i - 1)) = [])
 \<and> (nxt (make_pagination fl (Num i)) = None \<longleftrightarrow> paginate fl PAGE_SIZE (Num (i + 1)) = [])
 \<and> (1 \<le> i \<longrightarrow>
      (prev (make_pagination fl (Num i)) = None
         \<longleftrightarrow> i \<le> 1 \<or> paginate fl PAGE_SIZE (Num (i - 1)) = []))
 \<and> (1 \<le> i \<longrightarrow>
      (prev (make_pagination fl (Num i)) = None \<longleftrightarrow> i = 1 \<or> int (length fl) \<le> (i - 2) * 20))
 \<and> (1 \<le> i \<longrightarrow> (nxt (make_pagination fl (Num i)) = None \<longleftrightarrow> int (length fl) \<le> i * 20))
 \<and> (i \<le> 0 \<longrightarrow>
      (prev (make_pagination fl (Num i)) = None \<longleftrightarrow> int (length fl) \<le> (1 - i) * 20))
 \<and> (prev (make_pagination fl (Num i)) \<noteq> None \<longrightarrow>
      prev (make_pagination fl (Num i)) = Some (Num (i - 1)))
 \<and> (nxt (make_pagination fl (Num i)) \<noteq> None \<longrightarrow>
      nxt (make_pagination fl (Num i)) = Some (Num (i + 1)))"
proof -
  have p: "prev (make_pagination fl (Num i)) = None \<longleftrightarrow> paginate fl PAGE_SIZE (Num (i - 1)) = []"
    by (simp add: prev_None_iff)
  have n: "nxt (make_pagination fl (Num i)) = None \<longleftrightarrow> paginate fl PAGE_SIZE (Num (i + 1)) = []"
    by (simp add: nxt_None_iff)
  have one: "paginate fl PAGE_SIZE (Num 0) = []"
    using paginate_nonpos_empty_iff [of 0 fl] by simp
  have p1: "1 \<le> i \<longrightarrow> (paginate fl PAGE_SIZE (Num (i - 1)) = [] \<longleftrightarrow> i = 1 \<or> int (length fl) \<le> (i - 2) * 20)"
  proof
    assume i: "1 \<le> i"
    show "paginate fl PAGE_SIZE (Num (i - 1)) = [] \<longleftrightarrow> i = 1 \<or> int (length fl) \<le> (i - 2) * 20"
    proof (cases "i = 1")
      case True
      then show ?thesis using one by simp
    next
      case False
      then have "1 \<le> i - 1" using i by simp
      then have "paginate fl (Num 20) (Num (i - 1)) = [] \<longleftrightarrow> (20::int) = 0 \<or> int (length fl) \<le> (i - 1 - 1) * 20"
        by (intro paginate_empty_iff) simp_all
      then show ?thesis using False by (simp add: PAGE_SIZE_def)
    qed
  qed
  have n1: "1 \<le> i \<longrightarrow> (paginate fl PAGE_SIZE (Num (i + 1)) = [] \<longleftrightarrow> int (length fl) \<le> i * 20)"
  proof
    assume i: "1 \<le> i"
    then have "paginate fl (Num 20) (Num (i + 1)) = [] \<longleftrightarrow> (20::int) = 0 \<or> int (length fl) \<le> (i + 1 - 1) * 20"
      by (intro paginate_empty_iff) simp_all
    then show "paginate fl PAGE_SIZE (Num (i + 1)) = [] \<longleftrightarrow> int (length fl) \<le> i * 20"
      by (simp add: PAGE_SIZE_def)
  qed
  have p0: "i \<le> 0 \<longrightarrow> (paginate fl PAGE_SIZE (Num (i - 1)) = [] \<longleftrightarrow> int (length fl) \<le> (1 - i) * 20)"
  proof
    assume i: "i \<le> 0"
    then have "paginate fl PAGE_SIZE (Num (i - 1)) = [] \<longleftrightarrow> i - 1 = 0 \<or> int (length fl) \<le> - (i - 1) * 20"
      by (intro paginate_nonpos_empty_iff) simp
    then show "paginate fl PAGE_SIZE (Num (i - 1)) = [] \<longleftrightarrow> int (length fl) \<le> (1 - i) * 20"
      using i by (simp add: algebra_simps)
  qed
  have ps: "prev (make_pagination fl (Num i)) \<noteq> None \<longrightarrow>
      prev (make_pagination fl (Num i)) = Some (Num (i - 1))"
    by (simp add: make_pagination_def Let_def)
  have ns: "nxt (make_pagination fl (Num i)) \<noteq> None \<longrightarrow>
      nxt (make_pagination fl (Num i)) = Some (Num (i + 1))"
    by (simp add: make_pagination_def Let_def)
  have c3: "1 \<le> i \<longrightarrow>
      (prev (make_pagination fl (Num i)) = None
         \<longleftrightarrow> i \<le> 1 \<or> paginate fl PAGE_SIZE (Num (i - 1)) = [])"
    using p p1 by auto
  have c4: "1 \<le> i \<longrightarrow>
      (prev (make_pagination fl (Num i)) = None \<longleftrightarrow> i = 1 \<or> int (length fl) \<le> (i - 2) * 20)"
    using p p1 by simp
  have c5: "1 \<le> i \<longrightarrow> (nxt (make_pagination fl (Num i)) = None \<longleftrightarrow> int (length fl) \<le> i * 20)"
    using n n1 by simp
  have c6: "i \<le> 0 \<longrightarrow>
      (prev (make_pagination fl (Num i)) = None \<longleftrightarrow> int (length fl) \<le> (1 - i) * 20)"
    using p p0 by simp
  show ?thesis
    by (intro conjI p n c3 c4 c5 c6 ps ns)
qed

theorem pagination_prev_next_witness:
  "(1::int) \<le> 2 \<and>
   prev (make_pagination [''a'', ''b'', ''c'', ''d'', ''e'', ''f'', ''g'', ''h'', ''i'', ''j'', ''k'', ''l'', ''m'', ''n'', ''o'', ''p'', ''q'', ''r'', ''s'', ''t'', ''u'', ''v'', ''w'', ''x'', ''y''] (Num 2)) = Some (Num 1) \<and>
   nxt (make_pagination [''a'', ''b'', ''c'', ''d'', ''e'', ''f'', ''g'', ''h'', ''i'', ''j'', ''k'', ''l'', ''m'', ''n'', ''o'', ''p'', ''q'', ''r'', ''s'', ''t'', ''u'', ''v'', ''w'', ''x'', ''y''] (Num 2)) = None \<and>
   (0::int) \<le> 0 \<and>
   prev (make_pagination [''a'', ''b'', ''c'', ''d'', ''e'', ''f'', ''g'', ''h'', ''i'', ''j'', ''k'', ''l'', ''m'', ''n'', ''o'', ''p'', ''q'', ''r'', ''s'', ''t'', ''u'', ''v'', ''w'', ''x'', ''y''] (Num 0)) = Some (Num (- 1))"
proof -
  have a: "prev (make_pagination [''a'', ''b'', ''c'', ''d'', ''e'', ''f'', ''g'', ''h'', ''i'', ''j'', ''k'', ''l'', ''m'', ''n'', ''o'', ''p'', ''q'', ''r'', ''s'', ''t'', ''u'', ''v'', ''w'', ''x'', ''y''] (Num 2)) = Some (Num 1) \<and>
           nxt (make_pagination [''a'', ''b'', ''c'', ''d'', ''e'', ''f'', ''g'', ''h'', ''i'', ''j'', ''k'', ''l'', ''m'', ''n'', ''o'', ''p'', ''q'', ''r'', ''s'', ''t'', ''u'', ''v'', ''w'', ''x'', ''y''] (Num 2)) = None"
    using pagination_prev_next [of "[''a'', ''b'', ''c'', ''d'', ''e'', ''f'', ''g'', ''h'', ''i'', ''j'', ''k'', ''l'', ''m'', ''n'', ''o'', ''p'', ''q'', ''r'', ''s'', ''t'', ''u'', ''v'', ''w'', ''x'', ''y'']" 2] by simp
  have b: "prev (make_pagination [''a'', ''b'', ''c'', ''d'', ''e'', ''f'', ''g'', ''h'', ''i'', ''j'', ''k'', ''l'', ''m'', ''n'', ''o'', ''p'', ''q'', ''r'', ''s'', ''t'', ''u'', ''v'', ''w'', ''x'', ''y''] (Num 0)) = Some (Num (- 1))"
    using pagination_prev_next [of "[''a'', ''b'', ''c'', ''d'', ''e'', ''f'', ''g'', ''h'', ''i'', ''j'', ''k'', ''l'', ''m'', ''n'', ''o'', ''p'', ''q'', ''r'', ''s'', ''t'', ''u'', ''v'', ''w'', ''x'', ''y'']" 0] by simp
  show ?thesis using a b by simp
qed

section \<open>The page parameter\<close>

lemma page_index_cases:
  "page_index req =
     (case map_of (query req) ''page'' of
        Some (QString s) \<Rightarrow> if s = [] then Num 1 else parseInt s
      | _ \<Rightarrow> Num 1)"
  by (simp add: page_index_def string_param_def split: option.splits query_value.splits)

text \<open>
  Claim C7 at the request \<^verbatim>\<open>GET /?page=abc\<close>: the index is \<^verbatim>\<open>NaN\<close>, not 1, and the page
  served is empty whatever the storage holds.  Without the parameter the index is 1.
\<close>

theorem page_index_non_numeric:
  "page_index \<lparr> credentials = None, query = [(''page'', QString ''abc'')], uploads = [] \<rparr> = NaN \<and>
   files (make_pagination [''a'', ''b'', ''c'', ''d'', ''e'', ''f'', ''g'', ''h'', ''i'', ''j'', ''k'', ''l'', ''m'', ''n'', ''o'', ''p'', ''q'', ''r'', ''s'', ''t'', ''u'', ''v'', ''w'', ''x'', ''y''] NaN) = [] \<and>
   get_index sample_config sample_fs
     \<lparr> credentials = None, query = [(''page'', QString ''abc'')], uploads = [] \<rparr>
     = Responded \<lparr> status = 200,
         headers = [(''Content-Type'', ''text/html''), (''Content-DPR'', ''2.0'')],
         body = Html (IndexPage
           \<lparr> all_files = [''c.JPG'', ''a.png'', ''b.tif''],
             pagination = \<lparr> index = NaN, psize = Num 20, prev = None, nxt = None,
                            files = [] \<rparr> \<rparr>) \<rparr> \<and>
   page_index \<lparr> credentials = None, query = [], uploads = [] \<rparr> = Num 1"
proof -
  have 1: "page_index \<lparr> credentials = None, query = [(''page'', QString ''abc'')], uploads = [] \<rparr> = NaN"
    by (simp add: page_index_def string_param_def parseInt_def strip_sign_def strip_radix_def
        is_js_space_def is_digit_def digit_value_def)
  have 2: "files (make_pagination [''a'', ''b'', ''c'', ''d'', ''e'', ''f'', ''g'', ''h'', ''i'', ''j'', ''k'', ''l'', ''m'', ''n'', ''o'', ''p'', ''q'', ''r'', ''s'', ''t'', ''u'', ''v'', ''w'', ''x'', ''y''] NaN) = []"
    by (simp add: make_pagination_def Let_def paginate_NaN)
  have s: "readSyncImageFiles sample_config sample_fs = Inr [''c.JPG'', ''a.png'', ''b.tif'']"
    by (simp add: readSyncImageFiles_def readdirSync_def dir_entries_def statSync_def stat_def
        storage_dir_def path_resolve_def resolve_step_def js_sort_def newest_first_def
        sample_config_def sample_fs_def ALLOWED_FORMATS_REGEX_test_def
        ALLOWED_FORMATS_ALTERNATIVES_def ends_with_ci_def to_lower_def)
  have 3: "get_index sample_config sample_fs
     \<lparr> credentials = None, query = [(''page'', QString ''abc'')], uploads = [] \<rparr>
     = Responded \<lparr> status = 200,
         headers = [(''Content-Type'', ''text/html''), (''Content-DPR'', ''2.0'')],
         body = Html (IndexPage
           \<lparr> all_files = [''c.JPG'', ''a.png'', ''b.tif''],
             pagination = \<lparr> index = NaN, psize = Num 20, prev = None, nxt = None,
                            files = [] \<rparr> \<rparr>) \<rparr>"
    by (simp add: get_index_def s 1 make_pagination_def Let_def paginate_NaN PAGE_SIZE_def)
  have 4: "page_index \<lparr> credentials = None, query = [], uploads = [] \<rparr> = Num 1"
    by (simp add: page_index_def string_param_def)
  show ?thesis by (intro conjI 1 2 3 4)
qed

section \<open>Properties of the directory scanner\<close>

lemma lower_letters_not_dot: "d \<in> set ''abcdefghijklmnopqrstuvwxyz'' \<Longrightarrow> d \<noteq> CHR ''.''"
  by auto

lemma to_lower_None: "map_of (zip ''ABCDEFGHIJKLMNOPQRSTUVWXYZ'' ''abcdefghijklmnopqrstuvwxyz'') c = None \<Longrightarrow> to_lower c = c"
  unfolding to_lower_def by (simp only: option.case)

lemma to_lower_Some: "map_of (zip ''ABCDEFGHIJKLMNOPQRSTUVWXYZ'' ''abcdefghijklmnopqrstuvwxyz'') c = Some d \<Longrightarrow> to_lower c = d"
  unfolding to_lower_def by (simp only: option.case)

lemma to_lower_dot_self: "to_lower (CHR ''.'') = CHR ''.''"
  by (simp add: to_lower_def)

lemma to_lower_dot: "to_lower c = CHR ''.'' \<longleftrightarrow> c = CHR ''.''"
proof
  assume l: "to_lower c = CHR ''.''"
  show "c = CHR ''.''"
  proof (cases "map_of (zip ''ABCDEFGHIJKLMNOPQRSTUVWXYZ'' ''abcdefghijklmnopqrstuvwxyz'') c")
    case None
    then have "to_lower c = c" by (rule to_lower_None)
    then show ?thesis using l by simp
  next
    case (Some d)
    then have "(c, d) \<in> set (zip ''ABCDEFGHIJKLMNOPQRSTUVWXYZ'' ''abcdefghijklmnopqrstuvwxyz'')"
      by (rule map_of_SomeD)
    then have "d \<in> set ''abcdefghijklmnopqrstuvwxyz''"
      by (rule set_zip_rightD)
    then have "d \<noteq> CHR ''.''" by (rule lower_letters_not_dot)
    moreover have "to_lower c = d" using Some by (rule to_lower_Some)
    ultimately show ?thesis using l by simp
  qed
next
  assume "c = CHR ''.''"
  then show "to_lower c = CHR ''.''" by (simp add: to_lower_dot_self)
qed

lemma insert_sorted_insort:
  "insert_sorted newest_first x ys = insort_key (\<lambda>e. - time e) x ys"
  by (induction ys) (auto simp: newest_first_def)

lemma js_sort_sort_key: "js_sort newest_first xs = sort_key (\<lambda>e. - time e) xs"
proof -
  have "insert_sorted newest_first = insort_key (\<lambda>e. - time e)"
    by (intro ext) (rule insert_sorted_insort)
  then show ?thesis by (simp add: js_sort_def sort_key_def)
qed

lemma insort_key_map: "insort_key f (g x) (map g ys) = map g (insort_key (\<lambda>y. f (g y)) x ys)"
  by (induction ys) auto

lemma sort_key_map: "sort_key f (map g xs) = map g (sort_key (\<lambda>y. f (g y)) xs)"
  by (induction xs) (simp_all add: insort_key_map)

lemma insort_key_agree:
  "f x = g x \<Longrightarrow> \<forall>y\<in>set ys. f y = g y \<Longrightarrow> insort_key f x ys = insort_key g x ys"
  by (induction ys) auto

lemma sort_key_agree: "\<forall>x\<in>set xs. f x = g x \<Longrightarrow> sort_key f xs = sort_key g xs"
proof (induction xs)
  case Nil
  then show ?case by simp
next
  case (Cons x xs)
  then have ih: "sort_key f xs = sort_key g xs" by simp
  have "insort_key f x (sort_key g xs) = insort_key g x (sort_key g xs)"
    using Cons.prems by (intro insort_key_agree) simp_all
  then show ?case using ih by simp
qed


lemma readdir_listing:
  assumes "readdirSync fs d = Inr listing"
  shows "listing = sort (dir_entries fs d)"
  using assms by (auto simp: readdirSync_def split: option.splits node.splits)

lemma readdir_sorted:
  assumes "readdirSync fs d = Inr listing"
  shows "sorted listing"
proof -
  have "listing = sort (dir_entries fs d)" using assms by (rule readdir_listing)
  then show ?thesis by simp
qed

lemma sorted_same_names:
  fixes xs ys :: "string list"
  assumes "sorted xs" and "sorted ys" and "mset xs = mset ys"
  shows "xs = ys"
proof -
  have "sort ys = xs" using assms(3) assms(1) by (rule properties_for_sort)
  moreover have "sort ys = ys" using assms(2) by (rule sorted_sort_id)
  ultimately show ?thesis by simp
qed

lemma readdir_entry_stat:
  assumes "readdirSync fs d = Inr listing" and "n \<in> set listing"
  shows "stat fs (d @ [n]) \<noteq> None"
proof -
  from assms(1) have "listing = sort (dir_entries fs d)" by (rule readdir_listing)
  with assms(2) have "n \<in> set (dir_entries fs d)" by simp
  then obtain p nd where p: "(p, nd) \<in> set fs" "p \<noteq> []" "butlast p = d" "last p = n"
    by (auto simp: dir_entries_def)
  then have "p = d @ [n]" by (metis append_butlast_last_id)
  moreover have "map_of fs p \<noteq> None"
    using p(1) by (metis map_of_eq_None_iff fst_conv image_eqI)
  ultimately show ?thesis by (simp add: stat_def)
qed

lemma stat_files_total:
  "\<forall>n\<in>set ns. stat fs (d @ [n]) \<noteq> None \<Longrightarrow>
   stat_files fs d ns = Inr (map (\<lambda>n. \<lparr> fileName = n, time = entry_time fs d n \<rparr>) ns)"
  by (induction ns) (auto simp: statSync_def entry_time_def split: option.splits)

lemma readSyncImageFiles_eq:
  assumes "readdirSync fs (storage_dir cfg) = Inr listing"
  shows "readSyncImageFiles cfg fs =
           Inr (sort_key (\<lambda>n. - entry_time fs (storage_dir cfg) n)
                  (filter ALLOWED_FORMATS_REGEX_test listing))"
proof -
  let ?d = "storage_dir cfg"
  let ?ns = "filter ALLOWED_FORMATS_REGEX_test listing"
  let ?mk = "\<lambda>n. \<lparr> fileName = n, time = entry_time fs ?d n \<rparr>"
  have "\<forall>n\<in>set ?ns. stat fs (?d @ [n]) \<noteq> None"
    using readdir_entry_stat [OF assms] by simp
  then have st: "stat_files fs ?d ?ns = Inr (map ?mk ?ns)"
    by (rule stat_files_total)
  have "map fileName (js_sort newest_first (map ?mk ?ns))
          = map fileName (map ?mk (sort_key (\<lambda>n. - entry_time fs ?d n) ?ns))"
    by (simp add: js_sort_sort_key sort_key_map)
  also have "\<dots> = sort_key (\<lambda>n. - entry_time fs ?d n) ?ns"
    by (simp add: comp_def)
  finally show ?thesis
    using assms st by (simp add: readSyncImageFiles_def)
qed

lemma readSyncImageFiles_error:
  "readdirSync fs (storage_dir cfg) = Inl e \<Longrightarrow> readSyncImageFiles cfg fs = Inl e"
  by (simp add: readSyncImageFiles_def)

lemma split_last_dot:
  assumes "CHR ''.'' \<in> set name"
  shows "name = base_name name @ CHR ''.'' # the (extension name)"
    and "CHR ''.'' \<notin> set (the (extension name))"
proof -
  let ?P = "\<lambda>c. c \<noteq> CHR ''.''"
  have "dropWhile ?P (rev name) \<noteq> []" using assms by (simp add: dropWhile_eq_Nil_conv)
  moreover have "hd (dropWhile ?P (rev name)) = CHR ''.''"
    using calculation hd_dropWhile [of ?P "rev name"] by blast
  ultimately have d: "dropWhile ?P (rev name) = CHR ''.'' # tl (dropWhile ?P (rev name))"
    by (metis list.collapse)
  have "rev name = takeWhile ?P (rev name) @ dropWhile ?P (rev name)" by simp
  then have "rev name = takeWhile ?P (rev name) @ CHR ''.'' # tl (dropWhile ?P (rev name))"
    using d by simp
  then have "rev (rev name) = rev (takeWhile ?P (rev name) @ CHR ''.'' # tl (dropWhile ?P (rev name)))"
    by simp
  then show "name = base_name name @ CHR ''.'' # the (extension name)"
    using assms by (simp add: base_name_def extension_def)
  show "CHR ''.'' \<notin> set (the (extension name))"
    using assms set_takeWhileD [of "CHR ''.''" ?P "rev name"] by (auto simp: extension_def)
qed

lemma extension_append:
  assumes "CHR ''.'' \<notin> set ext"
  shows "extension (b @ CHR ''.'' # ext) = Some ext" and "base_name (b @ CHR ''.'' # ext) = b"
proof -
  let ?P = "\<lambda>c. c \<noteq> CHR ''.''"
  have r: "rev (b @ CHR ''.'' # ext) = rev ext @ CHR ''.'' # rev b" by simp
  have "takeWhile ?P (rev ext @ CHR ''.'' # rev b) = rev ext @ takeWhile ?P (CHR ''.'' # rev b)"
    using assms by (intro takeWhile_append2) auto
  then have t: "takeWhile ?P (rev ext @ CHR ''.'' # rev b) = rev ext" by simp
  have "dropWhile ?P (rev ext @ CHR ''.'' # rev b) = dropWhile ?P (CHR ''.'' # rev b)"
    using assms by (intro dropWhile_append2) auto
  then have d: "dropWhile ?P (rev ext @ CHR ''.'' # rev b) = CHR ''.'' # rev b" by simp
  show "extension (b @ CHR ''.'' # ext) = Some ext"
    unfolding extension_def r using t by simp
  show "base_name (b @ CHR ''.'' # ext) = b"
    unfolding base_name_def r using d by simp
qed

lemma alternatives_no_dot:
  "e \<in> set ALLOWED_FORMATS_ALTERNATIVES \<Longrightarrow> CHR ''.'' \<notin> set e"
  by (auto simp: ALLOWED_FORMATS_ALTERNATIVES_def)

lemma to_lower_no_dot: "CHR ''.'' \<notin> set (map to_lower r) \<Longrightarrow> CHR ''.'' \<notin> set r"
proof
  assume a: "CHR ''.'' \<notin> set (map to_lower r)" and "CHR ''.'' \<in> set r"
  then have "to_lower (CHR ''.'') \<in> set (map to_lower r)" by simp
  then show False using a by (simp only: to_lower_dot_self)
qed

lemma ends_with_ci_iff:
  assumes "CHR ''.'' \<notin> set e"
  shows "ends_with_ci name (CHR ''.'' # e)
          \<longleftrightarrow> (\<exists>r. extension name = Some r \<and> map to_lower r = e)"
proof
  assume a: "ends_with_ci name (CHR ''.'' # e)"
  let ?k = "length name - length (CHR ''.'' # e)"
  from a have len: "length (CHR ''.'' # e) \<le> length name"
    and m: "map to_lower (drop ?k name) = CHR ''.'' # e"
    by (simp_all add: ends_with_ci_def)
  from m obtain c r where cr: "drop ?k name = c # r" "to_lower c = CHR ''.''" "map to_lower r = e"
    by (cases "drop ?k name") auto
  then have c: "c = CHR ''.''" by (simp add: to_lower_dot)
  have n: "name = take ?k name @ CHR ''.'' # r"
    using cr(1) c by (metis append_take_drop_id)
  have "CHR ''.'' \<notin> set r" using assms cr(3) to_lower_no_dot by blast
  then have "extension (take ?k name @ CHR ''.'' # r) = Some r" by (rule extension_append)
  then have "extension name = Some r" using n by simp
  then show "\<exists>r. extension name = Some r \<and> map to_lower r = e" using cr(3) by blast
next
  assume "\<exists>r. extension name = Some r \<and> map to_lower r = e"
  then obtain r where r: "extension name = Some r" "map to_lower r = e" by blast
  then have dot: "CHR ''.'' \<in> set name" by (auto simp: extension_def split: if_splits)
  from split_last_dot(1) [OF dot] r(1) have n: "name = base_name name @ CHR ''.'' # r" by simp
  have l: "length e = length r" using r(2) by auto
  have "length name = length (base_name name) + Suc (length r)" using n by (metis length_append length_Cons)
  then have k: "length name - length (CHR ''.'' # e) = length (base_name name)" using l by simp
  have "drop (length (base_name name)) name = CHR ''.'' # r"
    using n by (metis append_eq_conv_conj)
  then show "ends_with_ci name (CHR ''.'' # e)"
    using k l r(2) \<open>length name = length (base_name name) + Suc (length r)\<close>
    by (simp add: ends_with_ci_def to_lower_dot_self)
qed

lemma ALLOWED_FORMATS_REGEX_extension:
  "ALLOWED_FORMATS_REGEX_test name \<longleftrightarrow>
     (case extension name of
        None \<Rightarrow> False
      | Some ext \<Rightarrow> map to_lower ext \<in> set ALLOWED_FORMATS_ALTERNATIVES)"
proof -
  have "ALLOWED_FORMATS_REGEX_test name \<longleftrightarrow>
          (\<exists>e\<in>set ALLOWED_FORMATS_ALTERNATIVES. ends_with_ci name (CHR ''.'' # e))"
    by (simp add: ALLOWED_FORMATS_REGEX_test_def list_ex_iff)
  also have "\<dots> \<longleftrightarrow> (\<exists>e\<in>set ALLOWED_FORMATS_ALTERNATIVES. \<exists>r. extension name = Some r \<and> map to_lower r = e)"
    using ends_with_ci_iff alternatives_no_dot by blast
  also have "\<dots> \<longleftrightarrow> (case extension name of None \<Rightarrow> False
      | Some ext \<Rightarrow> map to_lower ext \<in> set ALLOWED_FORMATS_ALTERNATIVES)"
    by (cases "extension name") auto
  finally show ?thesis .
qed


lemma sample_listing:
  "readdirSync sample_fs (storage_dir sample_config)
     = Inr [''a.png'', ''b.tif'', ''c.JPG'', ''notes.txt'', ''thumbs'']"
  by (simp add: readdirSync_def dir_entries_def stat_def sample_fs_def storage_dir_def
      sample_config_def path_resolve_def resolve_step_def)

lemma sample_listing_reordered:
  "readdirSync sample_fs_reordered (storage_dir sample_config)
     = Inr [''a.png'', ''b.tif'', ''c.JPG'', ''notes.txt'', ''thumbs'']"
  by (simp add: readdirSync_def dir_entries_def stat_def sample_fs_reordered_def storage_dir_def
      sample_config_def path_resolve_def resolve_step_def)

lemmas regex_eval =
  ALLOWED_FORMATS_REGEX_test_def ALLOWED_FORMATS_ALTERNATIVES_def ends_with_ci_def to_lower_def

lemmas sample_scan_eval =
  readSyncImageFiles_def readdirSync_def dir_entries_def statSync_def stat_def storage_dir_def
  path_resolve_def resolve_step_def js_sort_def newest_first_def sample_config_def

text \<open>
  Claim C3, as stated, on the sample storage directory: \<^verbatim>\<open>a.png\<close> and \<^verbatim>\<open>b.tif\<close> have the
  same modification time, so the result is not in strictly descending order of time; and
  \<^verbatim>\<open>b.tif\<close> is returned although \<^verbatim>\<open>tif\<close> is not in the allow-list of the claim.
\<close>

theorem scan_ties_and_tif:
  "readSyncImageFiles sample_config sample_fs = Inr [''c.JPG'', ''a.png'', ''b.tif''] \<and>
   entry_time sample_fs (storage_dir sample_config) ''a.png''
     = entry_time sample_fs (storage_dir sample_config) ''b.tif'' \<and>
   extension ''b.tif'' = Some ''tif'' \<and>
   ''tif'' \<notin> set spec_allow_list"
proof -
  have 1: "readSyncImageFiles sample_config sample_fs = Inr [''c.JPG'', ''a.png'', ''b.tif'']"
    by (simp add: sample_scan_eval regex_eval sample_fs_def)
  have 2: "entry_time sample_fs (storage_dir sample_config) ''a.png''
     = entry_time sample_fs (storage_dir sample_config) ''b.tif''"
    by (simp add: entry_time_def sample_scan_eval sample_fs_def)
  have 3: "extension ''b.tif'' = Some ''tif''" by (simp add: extension_def)
  have 4: "''tif'' \<notin> set spec_allow_list" by (simp add: spec_allow_list_def)
  show ?thesis using 1 2 3 4 by simp
qed

text \<open>
  Claim C3, amended.  For every state in which the storage directory can be listed, the
  scanner returns exactly the names of the directory whose extension is,
  case-insensitively, one of gif, jpg, jpeg, tif, tiff, png, webp, bmp, svg; they are
  ordered by descending last-modified time, not strictly: names with the same time follow
  one another in the order of the listing, which is bytewise ascending.  The scan is a
  function of the names of the directory and of their modification times: any state with
  the same names and the same times, in whatever order the file system keeps them, gives
  the same result, so re-scanning an unchanged directory yields the same order.
\<close>

theorem readSyncImageFiles_sorted_stable:
  assumes "readdirSync fs (storage_dir cfg) = Inr listing"
  shows "\<exists>names.
      readSyncImageFiles cfg fs = Inr names
    \<and> mset listing = mset (dir_entries fs (storage_dir cfg))
    \<and> mset names = mset (filter ALLOWED_FORMATS_REGEX_test listing)
    \<and> sorted_wrt (\<lambda>a b. entry_time fs (storage_dir cfg) a \<ge> entry_time fs (storage_dir cfg) b) names
    \<and> sorted listing
    \<and> (\<forall>t. filter (\<lambda>n. entry_time fs (storage_dir cfg) n = t) names
            = filter (\<lambda>n. entry_time fs (storage_dir cfg) n = t)
                (filter ALLOWED_FORMATS_REGEX_test listing))
    \<and> (\<forall>t. sorted (filter (\<lambda>n. entry_time fs (storage_dir cfg) n = t) names))
    \<and> (\<forall>n. ALLOWED_FORMATS_REGEX_test n \<longleftrightarrow>
            (case extension n of
               None \<Rightarrow> False
             | Some ext \<Rightarrow> map to_lower ext \<in> set ALLOWED_FORMATS_ALTERNATIVES))
    \<and> (\<forall>fs' listing'.
          readdirSync fs' (storage_dir cfg) = Inr listing' \<and>
          mset listing' = mset listing \<and>
          (\<forall>n\<in>set listing. entry_time fs' (storage_dir cfg) n = entry_time fs (storage_dir cfg) n)
          \<longrightarrow> readSyncImageFiles cfg fs' = Inr names)"
proof -
  let ?d = "storage_dir cfg"
  let ?key = "\<lambda>n. - entry_time fs ?d n"
  let ?ns = "filter ALLOWED_FORMATS_REGEX_test listing"
  let ?names = "sort_key ?key ?ns"
  have r: "readSyncImageFiles cfg fs = Inr ?names"
    using assms by (rule readSyncImageFiles_eq)
  have l: "mset listing = mset (dir_entries fs ?d)"
    using readdir_listing [OF assms] by simp
  have so: "sorted listing" using assms by (rule readdir_sorted)
  have m: "mset ?names = mset ?ns" by simp
  have "sorted (map ?key ?names)" by (rule sorted_sort_key)
  then have s: "sorted_wrt (\<lambda>a b. entry_time fs ?d a \<ge> entry_time fs ?d b) ?names"
    by (simp add: sorted_wrt_map)
  have st: "\<forall>t. filter (\<lambda>n. entry_time fs ?d n = t) ?names = filter (\<lambda>n. entry_time fs ?d n = t) ?ns"
  proof
    fix t
    have "filter (\<lambda>n. ?key n = - t) ?names = filter (\<lambda>n. ?key n = - t) ?ns"
      by (rule sort_key_stable)
    then show "filter (\<lambda>n. entry_time fs ?d n = t) ?names = filter (\<lambda>n. entry_time fs ?d n = t) ?ns"
      by simp
  qed
  have ties: "\<forall>t. sorted (filter (\<lambda>n. entry_time fs ?d n = t) ?names)"
  proof
    fix t
    have "sorted (filter (\<lambda>n. entry_time fs ?d n = t) ?ns)"
      using so by (simp add: sorted_wrt_filter)
    then show "sorted (filter (\<lambda>n. entry_time fs ?d n = t) ?names)"
      using st by simp
  qed
  have x: "\<forall>n. ALLOWED_FORMATS_REGEX_test n \<longleftrightarrow>
            (case extension n of
               None \<Rightarrow> False
             | Some ext \<Rightarrow> map to_lower ext \<in> set ALLOWED_FORMATS_ALTERNATIVES)"
    using ALLOWED_FORMATS_REGEX_extension by blast
  have det: "\<forall>fs' listing'.
          readdirSync fs' ?d = Inr listing' \<and>
          mset listing' = mset listing \<and>
          (\<forall>n\<in>set listing. entry_time fs' ?d n = entry_time fs ?d n)
          \<longrightarrow> readSyncImageFiles cfg fs' = Inr ?names"
  proof (intro allI impI)
    fix fs' listing'
    assume a: "readdirSync fs' ?d = Inr listing' \<and>
          mset listing' = mset listing \<and>
          (\<forall>n\<in>set listing. entry_time fs' ?d n = entry_time fs ?d n)"
    then have rd: "readdirSync fs' ?d = Inr listing'" by simp
    then have "sorted listing'" by (rule readdir_sorted)
    then have "listing' = listing" using so a by (intro sorted_same_names) simp_all
    then have "readdirSync fs' ?d = Inr listing" using rd by simp
    then have "readSyncImageFiles cfg fs' = Inr (sort_key (\<lambda>n. - entry_time fs' ?d n) ?ns)"
      by (rule readSyncImageFiles_eq)
    moreover have "sort_key (\<lambda>n. - entry_time fs' ?d n) ?ns = sort_key ?key ?ns"
      using a by (intro sort_key_agree) simp
    ultimately show "readSyncImageFiles cfg fs' = Inr ?names" by simp
  qed
  show ?thesis using r l m s so st ties x det by blast
qed

theorem readSyncImageFiles_sorted_stable_witness:
  "readdirSync sample_fs (storage_dir sample_config)
     = Inr [''a.png'', ''b.tif'', ''c.JPG'', ''notes.txt'', ''thumbs''] \<and>
   (\<exists>names. readSyncImageFiles sample_config sample_fs = Inr names \<and>
      mset names = {#''a.png'', ''b.tif'', ''c.JPG''#} \<and>
      filter (\<lambda>n. entry_time sample_fs (storage_dir sample_config) n = 5) names
        = [''a.png'', ''b.tif''] \<and>
      readSyncImageFiles sample_config sample_fs_reordered = Inr names)"
proof -
  let ?d = "storage_dir sample_config"
  let ?l = "[''a.png'', ''b.tif'', ''c.JPG'', ''notes.txt'', ''thumbs'']"
  have e: "entry_time sample_fs ?d ''a.png'' = 5"
    "entry_time sample_fs ?d ''b.tif'' = 5"
    "entry_time sample_fs ?d ''c.JPG'' = 7"
    by (simp_all add: entry_time_def sample_scan_eval sample_fs_def)
  have agree: "\<forall>n\<in>set ?l. entry_time sample_fs_reordered ?d n = entry_time sample_fs ?d n"
    by (simp add: entry_time_def sample_scan_eval sample_fs_def sample_fs_reordered_def)
  have f: "filter ALLOWED_FORMATS_REGEX_test ?l = [''a.png'', ''b.tif'', ''c.JPG'']"
    by (simp add: regex_eval)
  from readSyncImageFiles_sorted_stable [OF sample_listing]
  obtain names where n: "readSyncImageFiles sample_config sample_fs = Inr names"
    "mset names = mset (filter ALLOWED_FORMATS_REGEX_test ?l)"
    "\<forall>t. filter (\<lambda>n. entry_time sample_fs ?d n = t) names
            = filter (\<lambda>n. entry_time sample_fs ?d n = t) (filter ALLOWED_FORMATS_REGEX_test ?l)"
    "\<forall>fs' listing'.
          readdirSync fs' ?d = Inr listing' \<and>
          mset listing' = mset ?l \<and>
          (\<forall>n\<in>set ?l. entry_time fs' ?d n = entry_time sample_fs ?d n)
          \<longrightarrow> readSyncImageFiles sample_config fs' = Inr names"
    by blast
  from n(3) have "filter (\<lambda>n. entry_time sample_fs ?d n = 5) names
            = filter (\<lambda>n. entry_time sample_fs ?d n = 5) [''a.png'', ''b.tif'', ''c.JPG'']"
    unfolding f by blast
  then have 1: "filter (\<lambda>n. entry_time sample_fs ?d n = 5) names = [''a.png'', ''b.tif'']"
    by (simp add: e)
  have 2: "mset names = {#''a.png'', ''b.tif'', ''c.JPG''#}"
    using n(2) unfolding f by simp
  have 3: "readSyncImageFiles sample_config sample_fs_reordered = Inr names"
    using n(4) sample_listing_reordered agree by blast
  show ?thesis using n(1) 1 2 3 sample_listing by blast
qed

section \<open>Properties of the access gate\<close>

lemma checkAuth_iff: "checkAuth cfg user pass \<longleftrightarrow> user = ADMIN_USER cfg \<and> pass = ADMIN_PASS cfg"
  by (auto simp: checkAuth_def compare_def)

lemma not_authorized_iff:
  "\<not> authorized cfg req \<longleftrightarrow>
     credentials req = None \<or> (\<exists>u p. credentials req = Some (u, p) \<and> \<not> checkAuth cfg u p)"
  by (auto simp: authorized_def split: option.splits)

lemma gate_post_upload: "\<not> authorized cfg req \<Longrightarrow> post_upload cfg env fs req = (Responded access_denied, fs)"
  by (simp add: post_upload_def)

lemma gate_delete_delete: "\<not> authorized cfg req \<Longrightarrow> delete_delete cfg fs req = (Responded access_denied, fs)"
  by (simp add: delete_delete_def)

lemma gate_put_url2image: "\<not> authorized cfg req \<Longrightarrow> put_url2image cfg env fs req = (Responded access_denied, fs)"
  by (simp add: put_url2image_def)

lemma access_denied_challenge:
  "status access_denied = 401 \<and>
   (\<exists>v. map_of (headers access_denied) ''WWW-Authenticate'' = Some v \<and> startsWith v ''Basic'')"
  by (simp add: access_denied_def startsWith_def)

text \<open>
  Claim C4.  The access gate accepts a name and a password exactly when the name is
  \<^verbatim>\<open>ADMIN_USER\<close> and the password is \<^verbatim>\<open>ADMIN_PASS\<close>.  Changing any one character of
  either configured value gives a pair that is rejected, and a request that presents a
  rejected pair to an admin operation is answered with status 401, the storage untouched.
\<close>

theorem checkAuth_exact:
  "(checkAuth cfg user pass \<longleftrightarrow> user = ADMIN_USER cfg \<and> pass = ADMIN_PASS cfg)
 \<and> (i < length (ADMIN_USER cfg) \<and> c \<noteq> ADMIN_USER cfg ! i \<longrightarrow>
        \<not> checkAuth cfg ((ADMIN_USER cfg)[i := c]) (ADMIN_PASS cfg))
 \<and> (i < length (ADMIN_PASS cfg) \<and> c \<noteq> ADMIN_PASS cfg ! i \<longrightarrow>
        \<not> checkAuth cfg (ADMIN_USER cfg) ((ADMIN_PASS cfg)[i := c]))
 \<and> (credentials req = Some (user, pass) \<and> \<not> checkAuth cfg user pass \<longrightarrow>
        (\<exists>r. post_upload cfg env fs req = (Responded r, fs) \<and> status r = 401) \<and>
        (\<exists>r. delete_delete cfg fs req = (Responded r, fs) \<and> status r = 401) \<and>
        (\<exists>r. put_url2image cfg env fs req = (Responded r, fs) \<and> status r = 401))"
proof -
  have 1: "checkAuth cfg user pass \<longleftrightarrow> user = ADMIN_USER cfg \<and> pass = ADMIN_PASS cfg"
    by (rule checkAuth_iff)
  have upd: "\<And>xs :: string. i < length xs \<Longrightarrow> c \<noteq> xs ! i \<Longrightarrow> xs[i := c] \<noteq> xs"
    by (metis nth_list_update_eq)
  have 2: "i < length (ADMIN_USER cfg) \<and> c \<noteq> ADMIN_USER cfg ! i \<longrightarrow>
        \<not> checkAuth cfg ((ADMIN_USER cfg)[i := c]) (ADMIN_PASS cfg)"
    using upd by (simp add: checkAuth_iff)
  have 3: "i < length (ADMIN_PASS cfg) \<and> c \<noteq> ADMIN_PASS cfg ! i \<longrightarrow>
        \<not> checkAuth cfg (ADMIN_USER cfg) ((ADMIN_PASS cfg)[i := c])"
    using upd by (simp add: checkAuth_iff)
  have 4: "credentials req = Some (user, pass) \<and> \<not> checkAuth cfg user pass \<longrightarrow>
        (\<exists>r. post_upload cfg env fs req = (Responded r, fs) \<and> status r = 401) \<and>
        (\<exists>r. delete_delete cfg fs req = (Responded r, fs) \<and> status r = 401) \<and>
        (\<exists>r. put_url2image cfg env fs req = (Responded r, fs) \<and> status r = 401)"
  proof
    assume "credentials req = Some (user, pass) \<and> \<not> checkAuth cfg user pass"
    then have "\<not> authorized cfg req" by (simp add: authorized_def)
    then show "(\<exists>r. post_upload cfg env fs req = (Responded r, fs) \<and> status r = 401) \<and>
        (\<exists>r. delete_delete cfg fs req = (Responded r, fs) \<and> status r = 401) \<and>
        (\<exists>r. put_url2image cfg env fs req = (Responded r, fs) \<and> status r = 401)"
      using access_denied_challenge
      by (simp add: gate_post_upload gate_delete_delete gate_put_url2image)
  qed
  show ?thesis by (intro conjI 1 2 3 4)
qed

theorem checkAuth_exact_witness:
  "checkAuth sample_config ''hoge'' ''foo'' \<and>
   \<not> checkAuth sample_config ''hogf'' ''foo'' \<and>
   \<not> checkAuth sample_config ''hoge'' ''fOo'' \<and>
   (\<exists>r. delete_delete sample_config sample_fs
          \<lparr> credentials = Some (''hogf'', ''foo''), query = [(''fileName'', QString ''a.png'')],
            uploads = [] \<rparr> = (Responded r, sample_fs) \<and> status r = 401)"
proof -
  have a: "checkAuth sample_config ''hoge'' ''foo''"
    using checkAuth_exact [of sample_config "''hoge''" "''foo''"] by (simp add: sample_config_def)
  have b: "\<not> checkAuth sample_config ''hogf'' ''foo''"
    using checkAuth_exact [of sample_config _ _ 3 "CHR ''f''"] by (simp add: sample_config_def)
  have c: "\<not> checkAuth sample_config ''hoge'' ''fOo''"
    using checkAuth_exact [of sample_config _ _ 1 "CHR ''O''"] by (simp add: sample_config_def)
  have d: "\<exists>r. delete_delete sample_config sample_fs
          \<lparr> credentials = Some (''hogf'', ''foo''), query = [(''fileName'', QString ''a.png'')],
            uploads = [] \<rparr> = (Responded r, sample_fs) \<and> status r = 401"
    using b checkAuth_exact [of sample_config "''hogf''" "''foo''" _ _
        "\<lparr> credentials = Some (''hogf'', ''foo''), query = [(''fileName'', QString ''a.png'')],
            uploads = [] \<rparr>" _ sample_fs]
    by simp
  show ?thesis using a b c d by blast
qed

text \<open>
  Claim C6.  A request to \<^verbatim>\<open>POST /upload\<close>, \<^verbatim>\<open>DELETE /delete\<close> or \<^verbatim>\<open>PUT /url2image\<close>
  without credentials, or with credentials that the access gate rejects, is answered with
  status 401 and a \<^verbatim>\<open>WWW-Authenticate\<close> header whose value starts with \<^verbatim>\<open>Basic\<close>, and the
  file system after the request is the file system before it.
\<close>

theorem unauthorized_rejected:
  assumes "credentials req = None \<or>
           (\<exists>u p. credentials req = Some (u, p) \<and> \<not> checkAuth cfg u p)"
  shows "post_upload cfg env fs req = (Responded access_denied, fs)
       \<and> delete_delete cfg fs req = (Responded access_denied, fs)
       \<and> put_url2image cfg env fs req = (Responded access_denied, fs)
       \<and> status access_denied = 401
       \<and> (\<exists>v. map_of (headers access_denied) ''WWW-Authenticate'' = Some v \<and> startsWith v ''Basic'')"
proof -
  from assms have "\<not> authorized cfg req" by (simp add: not_authorized_iff)
  then show ?thesis
    using access_denied_challenge
    by (simp add: gate_post_upload gate_delete_delete gate_put_url2image)
qed

theorem unauthorized_rejected_witness:
  "delete_delete sample_config sample_fs
     \<lparr> credentials = None, query = [(''fileName'', QString ''a.png'')], uploads = [] \<rparr>
     = (Responded access_denied, sample_fs) \<and>
   put_url2image sample_config sample_environment sample_fs
     \<lparr> credentials = Some (''hoge'', ''bar''), query = [(''url'', QString ''https://example.com/logo'')],
       uploads = [] \<rparr>
     = (Responded access_denied, sample_fs) \<and>
   post_upload sample_config sample_environment sample_fs
     \<lparr> credentials = None, query = [],
       uploads = [\<lparr> fieldname = ''images'', originalname = ''x.png'', mimetype = ''image/png'',
                    filesize = 10 \<rparr>] \<rparr>
     = (Responded access_denied, sample_fs)"
proof -
  have a: "delete_delete sample_config sample_fs
     \<lparr> credentials = None, query = [(''fileName'', QString ''a.png'')], uploads = [] \<rparr>
     = (Responded access_denied, sample_fs)"
    using unauthorized_rejected [of "\<lparr> credentials = None, query = [(''fileName'', QString ''a.png'')], uploads = [] \<rparr>"]
    by simp
  have b: "put_url2image sample_config sample_environment sample_fs
     \<lparr> credentials = Some (''hoge'', ''bar''), query = [(''url'', QString ''https://example.com/logo'')],
       uploads = [] \<rparr>
     = (Responded access_denied, sample_fs)"
    using unauthorized_rejected [of "\<lparr> credentials = Some (''hoge'', ''bar''), query = [(''url'', QString ''https://example.com/logo'')],
       uploads = [] \<rparr>" sample_config]
    by (simp add: checkAuth_def compare_def sample_config_def)
  have c: "post_upload sample_config sample_environment sample_fs
     \<lparr> credentials = None, query = [],
       uploads = [\<lparr> fieldname = ''images'', originalname = ''x.png'', mimetype = ''image/png'',
                    filesize = 10 \<rparr>] \<rparr>
     = (Responded access_denied, sample_fs)"
    using unauthorized_rejected [of "\<lparr> credentials = None, query = [],
       uploads = [\<lparr> fieldname = ''images'', originalname = ''x.png'', mimetype = ''image/png'',
                    filesize = 10 \<rparr>] \<rparr>"]
    by simp
  show ?thesis using a b c by blast
qed

section \<open>Properties of the filename generator\<close>

lemma match_dot_rest_no_dot: "CHR ''.'' \<notin> set s \<Longrightarrow> match_dot_rest s = None"
  by (induction s) auto

lemma match_dot_rest_Some_dot: "match_dot_rest s = Some m \<Longrightarrow> CHR ''.'' \<in> set s"
  by (induction s) (auto split: if_splits)

lemma match_dot_rest_first_dot:
  "CHR ''.'' \<in> set s \<Longrightarrow> \<not> list_ex is_line_terminator (dropWhile (\<lambda>c. c \<noteq> CHR ''.'') s) \<Longrightarrow>
   match_dot_rest s = Some (dropWhile (\<lambda>c. c \<noteq> CHR ''.'') s)"
  by (induction s) (auto simp: is_line_terminator_def)

lemma js_split_nonempty: "js_split sep s \<noteq> []"
  by (induction s) (auto split: list.splits)

lemma js_split_first:
  "(case js_split sep s of [] \<Rightarrow> d | b # _ \<Rightarrow> b) = takeWhile (\<lambda>c. c \<noteq> sep) s"
  by (induction s) (auto split: list.splits simp: js_split_nonempty)

lemma js_split_no_sep: "sep \<notin> set s \<Longrightarrow> js_split sep s = [s]"
  by (induction s) auto

lemma js_split_append:
  "sep \<notin> set a \<Longrightarrow> js_split sep (a @ sep # b) = a # js_split sep b"
  by (induction a) auto

lemma digit_char_digit: "digit_char d \<in> set ''0123456789''"
proof -
  have "d mod 10 < length ''0123456789''" by simp
  then show ?thesis unfolding digit_char_def by (rule nth_mem)
qed

lemma format_digits: "set (format_YYYYMMDDHHmmss t) \<subseteq> set ''0123456789''"
  using digit_char_digit
  by (simp add: format_YYYYMMDDHHmmss_def two_digits_def four_digits_def)

lemma format_length: "length (format_YYYYMMDDHHmmss t) = 14"
  by (simp add: format_YYYYMMDDHHmmss_def two_digits_def four_digits_def)

lemma format_ignores_millisecond:
  "format_YYYYMMDDHHmmss (t\<lparr> millisecond := ms \<rparr>) = format_YYYYMMDDHHmmss t"
  by (simp add: format_YYYYMMDDHHmmss_def)

lemma filename_first_dot:
  assumes "CHR ''.'' \<in> set (originalname file)"
    and "\<not> list_ex is_line_terminator (dropWhile (\<lambda>c. c \<noteq> CHR ''.'') (originalname file))"
  shows "filename t file =
           Inr (takeWhile (\<lambda>c. c \<noteq> CHR ''.'') (originalname file) @ ''-'' @
                format_YYYYMMDDHHmmss t @
                dropWhile (\<lambda>c. c \<noteq> CHR ''.'') (originalname file))"
  using match_dot_rest_first_dot [OF assms]
  by (simp add: filename_def js_split_first Let_def)

text \<open>
  Claim C10.  The upload filename generator produces a name only if the original name
  contains a dot: for an original name without a dot the match is \<^verbatim>\<open>null\<close> and the
  generator throws instead of producing a name.  The branch is reachable: the file filter
  looks at the MIME type only, so an authorised upload of a file without a dot in its name
  and with an image MIME type reaches the generator, and the exception escapes.
\<close>

theorem filename_requires_dot:
  "(CHR ''.'' \<notin> set (originalname file) \<longrightarrow> filename t file = Inl TypeError)
 \<and> ((\<exists>name. filename t file = Inr name) \<longrightarrow> CHR ''.'' \<in> set (originalname file))
 \<and> (authorized cfg req \<and> uploads req = [file] \<and> fieldname file = ''images'' \<and>
      fileFilter file = None \<and> CHR ''.'' \<notin> set (originalname file)
      \<longrightarrow> post_upload cfg env fs req = (Uncaught TypeError, fs))"
proof -
  have 1: "CHR ''.'' \<notin> set (originalname file) \<longrightarrow> filename t file = Inl TypeError"
    by (simp add: filename_def match_dot_rest_no_dot)
  have 2: "(\<exists>name. filename t file = Inr name) \<longrightarrow> CHR ''.'' \<in> set (originalname file)"
    by (auto simp: filename_def Let_def split: option.splits dest: match_dot_rest_Some_dot)
  have 3: "authorized cfg req \<and> uploads req = [file] \<and> fieldname file = ''images'' \<and>
      fileFilter file = None \<and> CHR ''.'' \<notin> set (originalname file)
      \<longrightarrow> post_upload cfg env fs req = (Uncaught TypeError, fs)"
    by (simp add: post_upload_def uploader_def filename_def match_dot_rest_no_dot)
  show ?thesis by (intro conjI 1 2 3)
qed

theorem filename_requires_dot_witness:
  "filename sample_time
     \<lparr> fieldname = ''images'', originalname = ''README'', mimetype = ''image/png'', filesize = 10 \<rparr>
     = Inl TypeError \<and>
   post_upload sample_config sample_environment sample_fs
     (admin_request []
        [\<lparr> fieldname = ''images'', originalname = ''README'', mimetype = ''image/png'', filesize = 10 \<rparr>])
     = (Uncaught TypeError, sample_fs) \<and>
   (\<exists>name. filename sample_time
     \<lparr> fieldname = ''images'', originalname = ''cat.png'', mimetype = ''image/png'', filesize = 10 \<rparr>
     = Inr name) \<and> CHR ''.'' \<in> set ''cat.png''"
proof -
  let ?f = "\<lparr> fieldname = ''images'', originalname = ''README'', mimetype = ''image/png'', filesize = 10 \<rparr>"
  let ?g = "\<lparr> fieldname = ''images'', originalname = ''cat.png'', mimetype = ''image/png'', filesize = 10 \<rparr>"
  have a: "filename sample_time ?f = Inl TypeError"
    using filename_requires_dot [of ?f sample_time] by simp
  have b: "post_upload sample_config sample_environment sample_fs (admin_request [] [?f])
     = (Uncaught TypeError, sample_fs)"
    using filename_requires_dot [of ?f _ sample_config "admin_request [] [?f]" sample_environment sample_fs]
    by (simp add: admin_request_def authorized_def checkAuth_def compare_def sample_config_def
        fileFilter_def)
  have c: "\<exists>name. filename sample_time ?g = Inr name"
    by (simp add: filename_def is_line_terminator_def)
  then have d: "CHR ''.'' \<in> set ''cat.png''"
    using filename_requires_dot [of ?g sample_time] by simp
  show ?thesis using a b c d by blast
qed


lemma content_type_ext_two:
  "CHR ''/'' \<notin> set a \<Longrightarrow> CHR ''/'' \<notin> set b \<Longrightarrow> content_type_ext (a @ CHR ''/'' # b) = b"
  by (simp add: content_type_ext_def js_split_append js_split_no_sep)

lemma content_type_ext_no_slash: "CHR ''/'' \<notin> set (content_type_ext ct)"
proof (cases "js_split (CHR ''/'') ct")
  case Nil
  then show ?thesis by (simp add: content_type_ext_def)
next
  case (Cons a rest)
  have seg: "\<And>s x. x \<in> set (js_split (CHR ''/'') s) \<Longrightarrow> CHR ''/'' \<notin> set x"
  proof -
    fix s :: string and x
    show "x \<in> set (js_split (CHR ''/'') s) \<Longrightarrow> CHR ''/'' \<notin> set x"
      by (induction s arbitrary: x) (auto split: if_splits list.splits)
  qed
  show ?thesis
  proof (cases rest)
    case Nil
    then show ?thesis using Cons by (simp add: content_type_ext_def)
  next
    case (Cons e more)
    then have "e \<in> set (js_split (CHR ''/'') ct)" using \<open>js_split (CHR ''/'') ct = a # rest\<close> by simp
    then have "CHR ''/'' \<notin> set e" by (rule seg)
    then show ?thesis using Cons \<open>js_split (CHR ''/'') ct = a # rest\<close> by (simp add: content_type_ext_def)
  qed
qed

text \<open>
  Claim C8, as stated, at two original names.  For \<^verbatim>\<open>a.b.png\<close> the generator cuts at the
  first dot and yields \<^verbatim>\<open>a-20240102030405.b.png\<close>, while the base name without the
  extension, the time stamp and the extension give \<^verbatim>\<open>a.b-20240102030405.png\<close>.  For
  \<^verbatim>\<open>README\<close> no name is generated.
\<close>

theorem upload_name_first_dot:
  "filename sample_time
     \<lparr> fieldname = ''images'', originalname = ''a.b.png'', mimetype = ''image/png'', filesize = 10 \<rparr>
     = Inr ''a-20240102030405.b.png'' \<and>
   spec_upload_name sample_time ''a.b.png'' = Some ''a.b-20240102030405.png'' \<and>
   filename sample_time
     \<lparr> fieldname = ''images'', originalname = ''README'', mimetype = ''image/png'', filesize = 10 \<rparr>
     = Inl TypeError"
  by (simp add: filename_def spec_upload_name_def extension_def base_name_def sample_time_def
      format_YYYYMMDDHHmmss_def two_digits_def four_digits_def digit_char_def is_line_terminator_def)

text \<open>
  Claim C8, amended.  For every uploaded file whose original name contains a dot, with no
  line terminator after its first dot, the destination name is the part of the original
  name before its first dot, a hyphen, the time stamp, and the original name from its
  first dot on; for a name with exactly one dot that is the base name without the
  extension, a hyphen, the time stamp, a dot and the extension.  The time stamp has the
  14 digits of \<^verbatim>\<open>YYYYMMDDHHmmss\<close> and does not depend on the milliseconds.  For a remotely
  fetched image the destination name is the unique id, a hyphen, the same time stamp, a
  dot, and the second \<^verbatim>\<open>/\<close>-separated segment of the content type (\<^verbatim>\<open>png\<close> for
  \<^verbatim>\<open>image/png\<close>).
\<close>

theorem filename_format:
  "(CHR ''.'' \<in> set (originalname file) \<and>
    \<not> list_ex is_line_terminator (dropWhile (\<lambda>c. c \<noteq> CHR ''.'') (originalname file)) \<longrightarrow>
      filename t file =
        Inr (takeWhile (\<lambda>c. c \<noteq> CHR ''.'') (originalname file) @ ''-'' @
             format_YYYYMMDDHHmmss t @
             dropWhile (\<lambda>c. c \<noteq> CHR ''.'') (originalname file)))
 \<and> (originalname file = b @ ''.'' @ ext \<and> CHR ''.'' \<notin> set b \<and> CHR ''.'' \<notin> set ext \<and>
    \<not> list_ex is_line_terminator ext \<longrightarrow>
      filename t file = Inr (b @ ''-'' @ format_YYYYMMDDHHmmss t @ ''.'' @ ext) \<and>
      spec_upload_name t (originalname file) = Some (b @ ''-'' @ format_YYYYMMDDHHmmss t @ ''.'' @ ext))
 \<and> length (format_YYYYMMDDHHmmss t) = 14
 \<and> set (format_YYYYMMDDHHmmss t) \<subseteq> set ''0123456789''
 \<and> format_YYYYMMDDHHmmss (t\<lparr> millisecond := ms \<rparr>) = format_YYYYMMDDHHmmss t
 \<and> destFileName uuid t ct = uuid @ ''-'' @ format_YYYYMMDDHHmmss t @ ''.'' @ content_type_ext ct
 \<and> content_type_ext ''image/png'' = ''png''
 \<and> (CHR ''/'' \<notin> set major \<and> CHR ''/'' \<notin> set minor \<longrightarrow>
      content_type_ext (major @ ''/'' @ minor) = minor)"
proof -
  have 1: "CHR ''.'' \<in> set (originalname file) \<and>
    \<not> list_ex is_line_terminator (dropWhile (\<lambda>c. c \<noteq> CHR ''.'') (originalname file)) \<longrightarrow>
      filename t file =
        Inr (takeWhile (\<lambda>c. c \<noteq> CHR ''.'') (originalname file) @ ''-'' @
             format_YYYYMMDDHHmmss t @
             dropWhile (\<lambda>c. c \<noteq> CHR ''.'') (originalname file))"
    using filename_first_dot by blast
  have 2: "originalname file = b @ ''.'' @ ext \<and> CHR ''.'' \<notin> set b \<and> CHR ''.'' \<notin> set ext \<and>
    \<not> list_ex is_line_terminator ext \<longrightarrow>
      filename t file = Inr (b @ ''-'' @ format_YYYYMMDDHHmmss t @ ''.'' @ ext) \<and>
      spec_upload_name t (originalname file) = Some (b @ ''-'' @ format_YYYYMMDDHHmmss t @ ''.'' @ ext)"
  proof
    assume a: "originalname file = b @ ''.'' @ ext \<and> CHR ''.'' \<notin> set b \<and> CHR ''.'' \<notin> set ext \<and>
      \<not> list_ex is_line_terminator ext"
    then have n: "originalname file = b @ CHR ''.'' # ext" by simp
    have tw: "takeWhile (\<lambda>c. c \<noteq> CHR ''.'') (b @ CHR ''.'' # ext) = b"
      using a by (auto simp: takeWhile_tail takeWhile_eq_all_conv)
    have "dropWhile (\<lambda>c. c \<noteq> CHR ''.'') (b @ CHR ''.'' # ext)
            = dropWhile (\<lambda>c. c \<noteq> CHR ''.'') (CHR ''.'' # ext)"
      using a by (intro dropWhile_append2) auto
    then have dw: "dropWhile (\<lambda>c. c \<noteq> CHR ''.'') (b @ CHR ''.'' # ext) = CHR ''.'' # ext" by simp
    have "\<not> list_ex is_line_terminator (dropWhile (\<lambda>c. c \<noteq> CHR ''.'') (originalname file))"
      using a by (simp add: n dw is_line_terminator_def)
    moreover have "CHR ''.'' \<in> set (originalname file)" by (simp add: n)
    ultimately have "filename t file =
        Inr (takeWhile (\<lambda>c. c \<noteq> CHR ''.'') (originalname file) @ ''-'' @
             format_YYYYMMDDHHmmss t @
             dropWhile (\<lambda>c. c \<noteq> CHR ''.'') (originalname file))"
      by (intro filename_first_dot)
    then have f: "filename t file = Inr (b @ ''-'' @ format_YYYYMMDDHHmmss t @ ''.'' @ ext)"
      by (simp add: n tw dw)
    have "extension (b @ CHR ''.'' # ext) = Some ext" "base_name (b @ CHR ''.'' # ext) = b"
      using a by (simp_all add: extension_append)
    then have "spec_upload_name t (originalname file)
                 = Some (b @ ''-'' @ format_YYYYMMDDHHmmss t @ ''.'' @ ext)"
      by (simp add: spec_upload_name_def n)
    with f show "filename t file = Inr (b @ ''-'' @ format_YYYYMMDDHHmmss t @ ''.'' @ ext) \<and>
      spec_upload_name t (originalname file) = Some (b @ ''-'' @ format_YYYYMMDDHHmmss t @ ''.'' @ ext)"
      by simp
  qed
  have 6: "destFileName uuid t ct = uuid @ ''-'' @ format_YYYYMMDDHHmmss t @ ''.'' @ content_type_ext ct"
    by (simp add: destFileName_def)
  have 7: "content_type_ext ''image/png'' = ''png''"
    by (simp add: content_type_ext_def)
  have 8: "CHR ''/'' \<notin> set major \<and> CHR ''/'' \<notin> set minor \<longrightarrow>
      content_type_ext (major @ ''/'' @ minor) = minor"
    by (simp add: content_type_ext_two)
  show ?thesis
    by (intro conjI 1 2 format_length format_digits format_ignores_millisecond 6 7 8)
qed

theorem filename_format_witness:
  "filename sample_time
     \<lparr> fieldname = ''images'', originalname = ''cat.png'', mimetype = ''image/png'', filesize = 10 \<rparr>
     = Inr ''cat-20240102030405.png'' \<and>
   filename sample_time
     \<lparr> fieldname = ''images'', originalname = ''a.b.png'', mimetype = ''image/png'', filesize = 10 \<rparr>
     = Inr ''a-20240102030405.b.png'' \<and>
   content_type_ext ''image/svg+xml'' = ''svg+xml''"
proof -
  let ?g = "\<lparr> fieldname = ''images'', originalname = ''cat.png'', mimetype = ''image/png'', filesize = 10 \<rparr>"
  let ?h = "\<lparr> fieldname = ''images'', originalname = ''a.b.png'', mimetype = ''image/png'', filesize = 10 \<rparr>"
  have st: "format_YYYYMMDDHHmmss sample_time = ''20240102030405''"
    by (simp add: sample_time_def format_YYYYMMDDHHmmss_def two_digits_def four_digits_def digit_char_def)
  have a: "filename sample_time ?g = Inr ''cat-20240102030405.png''"
    using filename_format [of ?g sample_time "''cat''" "''png''"]
    by (simp add: st is_line_terminator_def)
  have b: "filename sample_time ?h = Inr ''a-20240102030405.b.png''"
    using filename_format [of ?h sample_time]
    by (simp add: st is_line_terminator_def)
  have c: "content_type_ext ''image/svg+xml'' = ''svg+xml''"
    using filename_format [where major = "''image''" and minor = "''svg+xml''"]
    by simp
  show ?thesis using a b c by blast
qed

section \<open>Properties of the file system operations\<close>

lemma storage_dir_eq: "storage_dir cfg = dirname cfg @ [''storage'']"
  by (simp add: storage_dir_def path_resolve_def resolve_step_def)

lemma resolve_plain_name:
  assumes "plain_name n"
  shows "path_resolve (dirname cfg) [''storage'', n] = storage_dir cfg @ [n]"
proof -
  from assms obtain c r where n: "n = c # r" "c \<noteq> CHR ''/''"
    by (cases n) (auto simp: plain_name_def)
  have s: "js_split (CHR ''/'') n = [n]" using assms by (simp add: plain_name_def js_split_no_sep)
  have "resolve_step acc n = normalize_onto acc (js_split (CHR ''/'') n)" for acc
    unfolding n resolve_step_def using n(2) by simp
  moreover have "normalize_onto acc [n] = acc @ [n]" for acc
    using assms unfolding plain_name_def by simp
  ultimately have "resolve_step acc n = acc @ [n]" for acc
    by (simp only: s)
  then show ?thesis
    by (simp add: path_resolve_def storage_dir_eq resolve_step_def)
qed

lemma stat_unlink:
  assumes "unlinkSync fs p = Inr fs'"
  shows "stat fs' q = (if q = p then None else stat fs q)"
proof -
  from assms have fs': "fs' = filter (\<lambda>(q, n). q \<noteq> p) fs" and p: "p \<noteq> []"
    by (auto simp: unlinkSync_def stat_def split: option.splits node.splits if_splits)
  have "map_of (filter (\<lambda>(q, n). q \<noteq> p) fs) q = (if q = p then None else map_of fs q)"
    by (induction fs) auto
  then show ?thesis using p by (auto simp: stat_def fs')
qed

lemma dir_entries_unlink:
  "dir_entries (filter (\<lambda>(q, nd). q \<noteq> d @ [n]) fs) d = filter (\<lambda>m. m \<noteq> n) (dir_entries fs d)"
proof (induction fs)
  case Nil
  then show ?case by (simp add: dir_entries_def)
next
  case (Cons e fs)
  obtain p nd where e: "e = (p, nd)" by (cases e)
  have "p \<noteq> [] \<Longrightarrow> butlast p = d \<Longrightarrow> (p \<noteq> d @ [n]) = (last p \<noteq> n)"
    by (metis append_butlast_last_id butlast_snoc last_snoc)
  then show ?case using Cons by (auto simp: e dir_entries_def)
qed

lemma readdir_unlink:
  assumes "unlinkSync fs (d @ [n]) = Inr fs'" and "readdirSync fs d = Inr listing"
  shows "readdirSync fs' d = Inr (filter (\<lambda>m. m \<noteq> n) listing)"
proof -
  from assms(1) have fs': "fs' = filter (\<lambda>(q, nd). q \<noteq> d @ [n]) fs"
    by (auto simp: unlinkSync_def split: option.splits node.splits)
  have sd: "stat fs' d = stat fs d" using stat_unlink [OF assms(1), of d] by simp
  have l: "listing = sort (dir_entries fs d)" using assms(2) by (rule readdir_listing)
  have "sort (dir_entries fs' d) = filter (\<lambda>m. m \<noteq> n) (sort (dir_entries fs d))"
    by (simp add: fs' dir_entries_unlink filter_sort)
  then show ?thesis
    using assms(2) sd by (auto simp: readdirSync_def l split: option.splits node.splits)
qed

lemma scan_subset_listing:
  assumes "readdirSync fs (storage_dir cfg) = Inr listing"
    and "readSyncImageFiles cfg fs = Inr names"
  shows "set names = {n \<in> set listing. ALLOWED_FORMATS_REGEX_test n}"
  using readSyncImageFiles_eq [OF assms(1)] assms(2) by auto


section \<open>Properties of the delete operation\<close>

lemma delete_resolved:
  assumes "authorized cfg req" and "string_param req ''fileName'' = Some name"
  shows "delete_delete cfg fs req =
     (let target = path_resolve (dirname cfg) [''storage'', name] in
      case stat fs target of
        None \<Rightarrow> (Responded \<lparr> status = 404, headers = [], body = NoBody \<rparr>, fs)
      | Some (Directory t) \<Rightarrow>
          (Responded \<lparr> status = 500, headers = [], body = Failure (FsError EISDIR) \<rparr>, fs)
      | Some (File t) \<Rightarrow>
          (Responded \<lparr> status = 204, headers = [], body = NoBody \<rparr>,
           filter (\<lambda>(q, n). q \<noteq> target) fs))"
  using assms
  by (simp add: delete_delete_def existsSync_def unlinkSync_def Let_def
      split: option.splits node.splits)

text \<open>
  Claim C5, as stated, at two authorised requests on the sample storage.  The entry
  \<^verbatim>\<open>thumbs\<close> is present in the storage directory, but it is a directory: \<^verbatim>\<open>unlinkSync\<close>
  throws, the answer is 500 and nothing is removed.  The name \<^verbatim>\<open>../app.js\<close> is not present
  in the storage directory, but the resolved path exists outside it: the answer is 204 and
  \<^verbatim>\<open>/app/app.js\<close> is removed.
\<close>

theorem delete_directory_and_traversal:
  "readdirSync sample_fs (storage_dir sample_config)
     = Inr [''a.png'', ''b.tif'', ''c.JPG'', ''notes.txt'', ''thumbs''] \<and>
   delete_delete sample_config sample_fs (admin_request [(''fileName'', QString ''thumbs'')] [])
     = (Responded \<lparr> status = 500, headers = [], body = Failure (FsError EISDIR) \<rparr>, sample_fs) \<and>
   delete_delete sample_config sample_fs (admin_request [(''fileName'', QString ''../app.js'')] [])
     = (Responded \<lparr> status = 204, headers = [], body = NoBody \<rparr>,
        [([''app''], Directory 0),
         ([''app'', ''storage''], Directory 2),
         ([''app'', ''storage'', ''a.png''], File 5),
         ([''app'', ''storage'', ''b.tif''], File 5),
         ([''app'', ''storage'', ''notes.txt''], File 6),
         ([''app'', ''storage'', ''c.JPG''], File 7),
         ([''app'', ''storage'', ''thumbs''], Directory 8)])"
proof -
  have auth: "authorized sample_config (admin_request q [])" for q
    by (simp add: authorized_def admin_request_def checkAuth_def compare_def sample_config_def)
  have 1: "delete_delete sample_config sample_fs (admin_request [(''fileName'', QString ''thumbs'')] [])
     = (Responded \<lparr> status = 500, headers = [], body = Failure (FsError EISDIR) \<rparr>, sample_fs)"
    by (subst delete_resolved [OF auth, of _ "''thumbs''"])
       (simp_all add: string_param_def admin_request_def path_resolve_def resolve_step_def
          sample_config_def stat_def sample_fs_def)
  have 2: "delete_delete sample_config sample_fs (admin_request [(''fileName'', QString ''../app.js'')] [])
     = (Responded \<lparr> status = 204, headers = [], body = NoBody \<rparr>,
        [([''app''], Directory 0),
         ([''app'', ''storage''], Directory 2),
         ([''app'', ''storage'', ''a.png''], File 5),
         ([''app'', ''storage'', ''b.tif''], File 5),
         ([''app'', ''storage'', ''notes.txt''], File 6),
         ([''app'', ''storage'', ''c.JPG''], File 7),
         ([''app'', ''storage'', ''thumbs''], Directory 8)])"
    by (subst delete_resolved [OF auth, of _ "''../app.js''"])
       (simp_all add: string_param_def admin_request_def path_resolve_def resolve_step_def
          sample_config_def stat_def sample_fs_def)
  show ?thesis using sample_listing 1 2 by simp
qed

text \<open>
  Claim C5, amended.  For every authorised \<^verbatim>\<open>DELETE /delete?fileName=\<close> request whose
  \<^verbatim>\<open>fileName\<close> is a file name proper: if the storage directory has no entry of that name
  the answer is 404 and the file system is unchanged; if the entry is a file the answer is
  204, the file is removed and nothing else changes, the listing of the storage directory
  is the former listing without that name, and no later scan returns the name; if the
  entry is a directory the answer is 500 and the file system is unchanged.
\<close>

theorem delete_plain_name:
  assumes "authorized cfg req"
    and "string_param req ''fileName'' = Some name"
    and "plain_name name"
  shows "(stat fs (storage_dir cfg @ [name]) = None \<longrightarrow>
            delete_delete cfg fs req
              = (Responded \<lparr> status = 404, headers = [], body = NoBody \<rparr>, fs))
       \<and> (\<forall>t. stat fs (storage_dir cfg @ [name]) = Some (File t) \<longrightarrow>
            (\<exists>fs'. delete_delete cfg fs req
                     = (Responded \<lparr> status = 204, headers = [], body = NoBody \<rparr>, fs')
                 \<and> (\<forall>q. stat fs' q = (if q = storage_dir cfg @ [name] then None else stat fs q))
                 \<and> (\<forall>listing. readdirSync fs (storage_dir cfg) = Inr listing \<longrightarrow>
                       readdirSync fs' (storage_dir cfg) = Inr (filter (\<lambda>m. m \<noteq> name) listing))
                 \<and> (\<forall>names. readSyncImageFiles cfg fs' = Inr names \<longrightarrow> name \<notin> set names)))
       \<and> (\<forall>t. stat fs (storage_dir cfg @ [name]) = Some (Directory t) \<longrightarrow>
            delete_delete cfg fs req
              = (Responded \<lparr> status = 500, headers = [], body = Failure (FsError EISDIR) \<rparr>, fs))"
proof -
  let ?p = "storage_dir cfg @ [name]"
  have target: "path_resolve (dirname cfg) [''storage'', name] = ?p"
    using assms(3) by (rule resolve_plain_name)
  note d = delete_resolved [OF assms(1) assms(2), of fs, unfolded target Let_def]
  have 1: "stat fs ?p = None \<longrightarrow>
            delete_delete cfg fs req
              = (Responded \<lparr> status = 404, headers = [], body = NoBody \<rparr>, fs)"
    using d by simp
  have 3: "\<forall>t. stat fs ?p = Some (Directory t) \<longrightarrow>
            delete_delete cfg fs req
              = (Responded \<lparr> status = 500, headers = [], body = Failure (FsError EISDIR) \<rparr>, fs)"
    using d by simp
  have 2: "\<forall>t. stat fs ?p = Some (File t) \<longrightarrow>
            (\<exists>fs'. delete_delete cfg fs req
                     = (Responded \<lparr> status = 204, headers = [], body = NoBody \<rparr>, fs')
                 \<and> (\<forall>q. stat fs' q = (if q = ?p then None else stat fs q))
                 \<and> (\<forall>listing. readdirSync fs (storage_dir cfg) = Inr listing \<longrightarrow>
                       readdirSync fs' (storage_dir cfg) = Inr (filter (\<lambda>m. m \<noteq> name) listing))
                 \<and> (\<forall>names. readSyncImageFiles cfg fs' = Inr names \<longrightarrow> name \<notin> set names))"
  proof (intro allI impI)
    fix t
    assume f: "stat fs ?p = Some (File t)"
    let ?fs' = "filter (\<lambda>(q, n). q \<noteq> ?p) fs"
    have u: "unlinkSync fs ?p = Inr ?fs'" using f by (simp add: unlinkSync_def)
    have a: "delete_delete cfg fs req
               = (Responded \<lparr> status = 204, headers = [], body = NoBody \<rparr>, ?fs')"
      using d f by simp
    have b: "\<forall>q. stat ?fs' q = (if q = ?p then None else stat fs q)"
      using stat_unlink [OF u] by blast
    have c: "\<forall>listing. readdirSync fs (storage_dir cfg) = Inr listing \<longrightarrow>
                       readdirSync ?fs' (storage_dir cfg) = Inr (filter (\<lambda>m. m \<noteq> name) listing)"
      using readdir_unlink [OF u] by blast
    have e: "\<forall>names. readSyncImageFiles cfg ?fs' = Inr names \<longrightarrow> name \<notin> set names"
    proof (intro allI impI)
      fix names
      assume n: "readSyncImageFiles cfg ?fs' = Inr names"
      show "name \<notin> set names"
      proof (cases "readdirSync ?fs' (storage_dir cfg)")
        case (Inl err)
        then show ?thesis using n readSyncImageFiles_error by fastforce
      next
        case (Inr listing')
        then have "set names = {n \<in> set listing'. ALLOWED_FORMATS_REGEX_test n}"
          using n by (rule scan_subset_listing)
        moreover have "name \<notin> set listing'"
        proof
          assume "name \<in> set listing'"
          with Inr have "stat ?fs' ?p \<noteq> None" by (rule readdir_entry_stat)
          then show False using b by simp
        qed
        ultimately show ?thesis by simp
      qed
    qed
    show "\<exists>fs'. delete_delete cfg fs req
                     = (Responded \<lparr> status = 204, headers = [], body = NoBody \<rparr>, fs')
                 \<and> (\<forall>q. stat fs' q = (if q = ?p then None else stat fs q))
                 \<and> (\<forall>listing. readdirSync fs (storage_dir cfg) = Inr listing \<longrightarrow>
                       readdirSync fs' (storage_dir cfg) = Inr (filter (\<lambda>m. m \<noteq> name) listing))
                 \<and> (\<forall>names. readSyncImageFiles cfg fs' = Inr names \<longrightarrow> name \<notin> set names)"
      using a b c e by blast
  qed
  show ?thesis by (intro conjI 1 2 3)
qed

theorem delete_plain_name_witness:
  "(\<exists>fs'. delete_delete sample_config sample_fs (admin_request [(''fileName'', QString ''a.png'')] [])
            = (Responded \<lparr> status = 204, headers = [], body = NoBody \<rparr>, fs') \<and>
          readdirSync fs' (storage_dir sample_config)
            = Inr [''b.tif'', ''c.JPG'', ''notes.txt'', ''thumbs'']) \<and>
   delete_delete sample_config sample_fs (admin_request [(''fileName'', QString ''zzz.png'')] [])
     = (Responded \<lparr> status = 404, headers = [], body = NoBody \<rparr>, sample_fs) \<and>
   delete_delete sample_config sample_fs (admin_request [(''fileName'', QString ''thumbs'')] [])
     = (Responded \<lparr> status = 500, headers = [], body = Failure (FsError EISDIR) \<rparr>, sample_fs)"
proof -
  have auth: "authorized sample_config (admin_request q [])" for q
    by (simp add: authorized_def admin_request_def checkAuth_def compare_def sample_config_def)
  have par: "string_param (admin_request [(''fileName'', QString n)] []) ''fileName''
               = (if n = [] then None else Some n)" for n
    by (simp add: string_param_def admin_request_def)
  have st: "stat sample_fs (storage_dir sample_config @ [''a.png'']) = Some (File 5)"
    "stat sample_fs (storage_dir sample_config @ [''zzz.png'']) = None"
    "stat sample_fs (storage_dir sample_config @ [''thumbs'']) = Some (Directory 8)"
    by (simp_all add: stat_def storage_dir_eq sample_config_def sample_fs_def)
  have a: "\<exists>fs'. delete_delete sample_config sample_fs (admin_request [(''fileName'', QString ''a.png'')] [])
            = (Responded \<lparr> status = 204, headers = [], body = NoBody \<rparr>, fs') \<and>
          readdirSync fs' (storage_dir sample_config)
            = Inr [''b.tif'', ''c.JPG'', ''notes.txt'', ''thumbs'']"
    using delete_plain_name [OF auth [of "[(''fileName'', QString ''a.png'')]"], of "''a.png''" sample_fs] st(1) sample_listing
    by (simp add: par plain_name_def) blast
  have b: "delete_delete sample_config sample_fs (admin_request [(''fileName'', QString ''zzz.png'')] [])
     = (Responded \<lparr> status = 404, headers = [], body = NoBody \<rparr>, sample_fs)"
    using delete_plain_name [OF auth [of "[(''fileName'', QString ''zzz.png'')]"], of "''zzz.png''" sample_fs] st(2)
    by (simp add: par plain_name_def)
  have c: "delete_delete sample_config sample_fs (admin_request [(''fileName'', QString ''thumbs'')] [])
     = (Responded \<lparr> status = 500, headers = [], body = Failure (FsError EISDIR) \<rparr>, sample_fs)"
    using delete_plain_name [OF auth [of "[(''fileName'', QString ''thumbs'')]"], of "''thumbs''" sample_fs] st(3)
    by (simp add: par plain_name_def)
  show ?thesis using a b c by blast
qed

section \<open>Properties of the remote fetch\<close>
















end
